theory Spec2Isabelle
  imports Complex_Main
begin

section \<open>Data model\<close>

text \<open>
  The three scripts (\<^verbatim>\<open>main.py\<close>, \<^verbatim>\<open>multiple_gpx.py\<close>, \<^verbatim>\<open>multiple_kml.py\<close>) work on
  Python floats. Floats are idealised as \<^typ>\<open>real\<close>: rounding error, infinities and
  NaN are outside the model. A point is a pair \<open>(longitude, latitude)\<close>, as
  \<^verbatim>\<open>points.append((point.longitude, point.latitude))\<close> builds it.
\<close>

type_synonym point = "real \<times> real"

text \<open>The exceptions that the modelled code paths can raise.\<close>

datatype error = ParseError | ValueError | ZeroDivisionError

text \<open>
  \<^verbatim>\<open>geopy.distance.geodesic(a, b).meters\<close> is library code. It is a parameter \<open>G\<close> of
  every function that calls it; \<open>G\<close> receives its two arguments latitude first, as the
  scripts pass them (\<^verbatim>\<open>coords[i][::-1]\<close>). Coordinates are taken to be valid
  geographic coordinates, on which the library returns a distance and does not raise.
\<close>

type_synonym geodesic = "real \<times> real \<Rightarrow> real \<times> real \<Rightarrow> real"

definition latlon :: "point \<Rightarrow> real \<times> real" where
  "latlon p = (snd p, fst p)"

section \<open>Travel times\<close>

text \<open>
  \<^verbatim>\<open>geodesic_length(coords)\<close>: the sum over \<^verbatim>\<open>range(len(coords) - 1)\<close> of the geodesic
  distance between consecutive points. An empty range leaves the total at 0.
\<close>

fun geodesic_length :: "geodesic \<Rightarrow> point list \<Rightarrow> real" where
  "geodesic_length G (p # q # rest) = G (latlon p) (latlon q) + geodesic_length G (q # rest)"
| "geodesic_length G [p] = 0"
| "geodesic_length G [] = 0"

text \<open>
  The loop of \<^verbatim>\<open>calculate_travel_times\<close>. \<open>ts\<close> is the list \<^verbatim>\<open>times\<close> built so far (never
  empty, it starts as \<^verbatim>\<open>[0]\<close>). \<^verbatim>\<open>distance / speed_ms\<close> raises
  \<^verbatim>\<open>ZeroDivisionError\<close> when \<open>speed_ms\<close> is zero; the division is only reached when
  there is a next stop.
\<close>

fun travel_loop :: "geodesic \<Rightarrow> real \<Rightarrow> point list \<Rightarrow> real list \<Rightarrow> error + real list" where
  "travel_loop G speed_ms (p # q # rest) ts =
     (if speed_ms = 0 then Inl ZeroDivisionError
      else travel_loop G speed_ms (q # rest)
             (ts @ [last ts + G (latlon p) (latlon q) / speed_ms]))"
| "travel_loop G speed_ms [p] ts = Inr ts"
| "travel_loop G speed_ms [] ts = Inr ts"

definition calculate_travel_times :: "geodesic \<Rightarrow> point list \<Rightarrow> real \<Rightarrow> error + real list" where
  "calculate_travel_times G stops_coords speed_kmh =
     travel_loop G (speed_kmh * 1000 / 3600) stops_coords [0]"

text \<open>A crude stand-in distance, used only to instantiate \<open>G\<close> in closed examples.\<close>

definition taxicab_m :: geodesic where
  "taxicab_m a b = 100000 * (\<bar>fst a - fst b\<bar> + \<bar>snd a - snd b\<bar>)"

section \<open>Resampling a route\<close>

text \<open>
  \<^verbatim>\<open>shapely.geometry.LineString\<close> is library code, modelled from its documented
  behaviour. The constructor rejects a single coordinate; a line is kept as its first
  vertex and the list of the following ones. \<^verbatim>\<open>line.length\<close> is the planar
  (Euclidean, in degrees) length of the polyline. What the library does with no
  coordinate at all differs between its versions (none of them yields a route); the
  model counts it with the single coordinate, and every statement below about the
  stops of a route is about a route of at least two points.
\<close>

type_synonym linestring = "point \<times> point list"

definition euclid :: "real \<times> real \<Rightarrow> real \<times> real \<Rightarrow> real" where
  "euclid a b = sqrt ((fst a - fst b)\<^sup>2 + (snd a - snd b)\<^sup>2)"

definition LineString :: "point list \<Rightarrow> error + linestring" where
  "LineString points =
     (case points of
        p # q # rest \<Rightarrow> Inr (p, q # rest)
      | _ \<Rightarrow> Inl ValueError)"

fun path_length :: "point \<Rightarrow> point list \<Rightarrow> real" where
  "path_length p [] = 0"
| "path_length p (q # qs) = euclid p q + path_length q qs"

definition line_length :: "linestring \<Rightarrow> real" where
  "line_length line = path_length (fst line) (snd line)"

text \<open>
  \<^verbatim>\<open>line.interpolate(distance)\<close> walks the segments, adding up their lengths, until the
  distance falls inside a segment, and returns the point at that fraction of the segment;
  a distance at or beyond the end gives the last vertex, a distance of zero or less
  (after a negative distance has been counted from the end) the first vertex.
\<close>

definition point_along :: "point \<Rightarrow> point \<Rightarrow> real \<Rightarrow> point" where
  "point_along p q fr =
     (if fr \<le> 0 then p else if 1 \<le> fr then q
      else (fst p + (fst q - fst p) * fr, snd p + (snd q - snd p) * fr))"

fun walk :: "point \<Rightarrow> point list \<Rightarrow> real \<Rightarrow> real \<Rightarrow> point" where
  "walk p [] total_len d = p"
| "walk p (q # qs) total_len d =
     (if total_len + euclid p q > d then point_along p q ((d - total_len) / euclid p q)
      else walk q qs (total_len + euclid p q) d)"

definition interpolate :: "linestring \<Rightarrow> real \<Rightarrow> point" where
  "interpolate line distance =
     (let forward = (if distance < 0 then line_length line + distance else distance)
      in if forward \<le> 0 then fst line else walk (fst line) (snd line) 0 forward)"

text \<open>
  \<^verbatim>\<open>generate_stops_and_times(points, stop_dist)\<close> of \<^verbatim>\<open>multiple_gpx.py\<close> and
  \<^verbatim>\<open>multiple_kml.py\<close> (the two texts are the same). \<^verbatim>\<open>total_meters // stop_dist\<close> raises
  \<^verbatim>\<open>ZeroDivisionError\<close> on a zero spacing; the count is clamped to at least 1, so the
  division \<^verbatim>\<open>line.length / num_stops\<close> never has a zero divisor. \<^verbatim>\<open>range(num_stops + 1)\<close>
  is the integer interval \<open>[0..num_stops]\<close>.
\<close>

definition generate_stops_and_times :: "geodesic \<Rightarrow> point list \<Rightarrow> real \<Rightarrow> error + point list" where
  "generate_stops_and_times G points stop_dist =
     (case LineString points of
        Inl e \<Rightarrow> Inl e
      | Inr line \<Rightarrow>
          (let total_meters = geodesic_length G points in
           if stop_dist = 0 then Inl ZeroDivisionError
           else
             (let num_stops = max \<lfloor>total_meters / stop_dist\<rfloor> 1;
                  dist_step = line_length line / of_int num_stops
              in Inr (map (\<lambda>i. interpolate line (dist_step * of_int i)) [0..num_stops]))))"

text \<open>
  The same steps as \<^verbatim>\<open>main.py\<close> writes them at top level (lines 34 to 49): the stop
  count is \<^verbatim>\<open>int(total_meters // stop_dist)\<close> with no lower bound, and
  \<^verbatim>\<open>line.length / num_stops\<close> raises \<^verbatim>\<open>ZeroDivisionError\<close> when the count is 0.
\<close>

definition main_interpolated :: "geodesic \<Rightarrow> point list \<Rightarrow> real \<Rightarrow> error + point list" where
  "main_interpolated G points stop_dist =
     (case LineString points of
        Inl e \<Rightarrow> Inl e
      | Inr line \<Rightarrow>
          (let total_meters = geodesic_length G points in
           if stop_dist = 0 then Inl ZeroDivisionError
           else
             (let num_stops = \<lfloor>total_meters / stop_dist\<rfloor> in
              if num_stops = 0 then Inl ZeroDivisionError
              else
                (let dist_step = line_length line / of_int num_stops
                 in Inr (map (\<lambda>i. interpolate line (dist_step * of_int i)) [0..num_stops])))))"

text \<open>
  Lines 51 to 55 of \<^verbatim>\<open>main.py\<close>: the same loop as \<^verbatim>\<open>calculate_travel_times\<close>, written
  at top level over \<^verbatim>\<open>range(1, len(interpolated))\<close>.
\<close>

definition main_times :: "geodesic \<Rightarrow> point list \<Rightarrow> real \<Rightarrow> error + real list" where
  "main_times G interpolated speed_kmh =
     travel_loop G ((speed_kmh * 1000) / 3600) interpolated [0]"

section \<open>Time strings\<close>

text \<open>Python's \<^verbatim>\<open>str\<close> of an integer, and the format \<^verbatim>\<open>{:02d}\<close>.\<close>

definition digit :: "nat \<Rightarrow> char" where
  "digit n = ''0123456789'' ! n"

fun str_nat :: "nat \<Rightarrow> string" where
  "str_nat n = (if n < 10 then [digit n] else str_nat (n div 10) @ [digit (n mod 10)])"

declare str_nat.simps [simp del]

definition str_int :: "int \<Rightarrow> string" where
  "str_int i = (if i < 0 then CHR ''-'' # str_nat (nat (- i)) else str_nat (nat i))"

definition fmt_02d :: "int \<Rightarrow> string" where
  "fmt_02d i = (let s = str_int i in replicate (2 - length s) (CHR ''0'') @ s)"

text \<open>
  \<^verbatim>\<open>int(x)\<close> truncates towards zero. \<^verbatim>\<open>x // m\<close> on floats is the floor of the quotient
  and \<^verbatim>\<open>x % m\<close> the remainder that goes with it (the sign of the divisor), both for
  the positive constant divisors the code uses.
\<close>

definition py_int :: "real \<Rightarrow> int" where
  "py_int x = (if 0 \<le> x then \<lfloor>x\<rfloor> else \<lceil>x\<rceil>)"

definition floordiv :: "real \<Rightarrow> real \<Rightarrow> real" where
  "floordiv x m = of_int \<lfloor>x / m\<rfloor>"

definition fmod :: "real \<Rightarrow> real \<Rightarrow> real" where
  "fmod x m = x - m * of_int \<lfloor>x / m\<rfloor>"

text \<open>\<^verbatim>\<open>seconds_to_gtfs_time(seconds)\<close> of the two multi-route scripts.\<close>

definition seconds_to_gtfs_time :: "real \<Rightarrow> string" where
  "seconds_to_gtfs_time seconds =
     (let hours = py_int (floordiv seconds 3600);
          minutes = py_int (floordiv (fmod seconds 3600) 60);
          secs = py_int (fmod seconds 60)
      in fmt_02d hours @ '':'' @ fmt_02d minutes @ '':'' @ fmt_02d secs)"

text \<open>
  \<^verbatim>\<open>main.py\<close> writes \<^verbatim>\<open>str(timedelta(seconds=int(seconds)))\<close> instead. A
  \<^verbatim>\<open>timedelta\<close> is normalised into days and seconds of the day, and its \<^verbatim>\<open>__str__\<close>
  prints \<^verbatim>\<open>"%d:%02d:%02d"\<close> for the seconds of the day, after \<^verbatim>\<open>"%d day%s, "\<close> when the
  days are not zero.
\<close>

definition timedelta_str :: "int \<Rightarrow> string" where
  "timedelta_str n =
     (let days = n div 86400; s = n mod 86400;
          mm = s div 60; ss = s mod 60; hh = mm div 60; mm = mm mod 60;
          hms = str_int hh @ '':'' @ fmt_02d mm @ '':'' @ fmt_02d ss
      in if days \<noteq> 0
         then str_int days @ '' day'' @ (if \<bar>days\<bar> \<noteq> 1 then ''s'' else []) @ '', '' @ hms
         else hms)"

definition main_hhmmss :: "real \<Rightarrow> string" where
  "main_hhmmss seconds = timedelta_str (py_int seconds)"

section \<open>The run state and stop interning\<close>

text \<open>
  The dictionaries that the scripts append to their lists, as records. Two keys occur
  in more than one dictionary and are told apart here: \<open>st_stop_id\<close> is the key
  \<^verbatim>\<open>stop_id\<close> of a stop-time row and \<open>route_shape_id\<close> the key \<^verbatim>\<open>shape_id\<close> of a route.
\<close>

record stop =
  stop_id :: nat
  stop_name :: string
  stop_lat :: real
  stop_lon :: real

record stop_time =
  trip_id :: nat
  arrival_time :: string
  departure_time :: string
  st_stop_id :: nat
  stop_sequence :: nat

record shape_pt =
  shape_id :: nat
  shape_pt_lat :: real
  shape_pt_lon :: real
  shape_pt_sequence :: nat

record route =
  route_id :: nat
  route_name :: string
  route_shape_id :: nat
  stops :: "nat list"

text \<open>
  The module-level variables that the per-file loop of the multi-route scripts updates.
  \<open>stop_id_map\<close> is the dictionary from rounded \<open>(latitude, longitude)\<close> keys to stop
  identities.
\<close>

record run_state =
  all_stops :: "stop list"
  stop_coords :: "(real \<times> real) list"
  stop_id_map :: "real \<times> real \<rightharpoonup> nat"
  stop_counter :: nat
  routes_data :: "route list"
  all_shapes :: "shape_pt list"
  all_stop_times :: "stop_time list"

definition init_state :: run_state where
  "init_state = \<lparr>all_stops = [], stop_coords = [], stop_id_map = Map.empty, stop_counter = 1,
                  routes_data = [], all_shapes = [], all_stop_times = []\<rparr>"

text \<open>
  \<^verbatim>\<open>round(x, 5)\<close>: the nearest multiple of one hundred-thousandth, a tie going to the
  even multiple.
\<close>

definition round5 :: "real \<Rightarrow> real" where
  "round5 x =
     (let y = x * 100000; f = \<lfloor>y\<rfloor>; r = y - of_int f
      in of_int (if r < 1 / 2 then f else if 1 / 2 < r then f + 1
                 else if even f then f else f + 1) / 100000)"

definition stop_key :: "point \<Rightarrow> real \<times> real" where
  "stop_key coord = (round5 (snd coord), round5 (fst coord))"

text \<open>
  One pass of the loop \<^verbatim>\<open>for coord in interpolated_stops\<close> up to the choice of
  \<^verbatim>\<open>stop_id\<close>: the identity of the coordinate and the state after it.
\<close>

definition intern :: "point \<Rightarrow> run_state \<Rightarrow> nat \<times> run_state" where
  "intern coord st =
     (let key = stop_key coord in
      case stop_id_map st key of
        None \<Rightarrow>
          (let sid = stop_counter st in
           (sid, st\<lparr>stop_counter := sid + 1,
                    stop_id_map := (stop_id_map st)(key \<mapsto> sid),
                    all_stops := all_stops st @
                      [\<lparr>stop_id = sid, stop_name = ''Stop '' @ str_nat sid,
                        stop_lat = snd coord, stop_lon = fst coord\<rparr>],
                    stop_coords := stop_coords st @ [(snd coord, fst coord)]\<rparr>))
      | Some sid \<Rightarrow> (sid, st))"

fun intern_loop :: "point list \<Rightarrow> nat list \<Rightarrow> point list \<Rightarrow> run_state \<Rightarrow>
    nat list \<times> point list \<times> run_state" where
  "intern_loop [] route_stops route_stop_coords st = (route_stops, route_stop_coords, st)"
| "intern_loop (coord # rest) route_stops route_stop_coords st =
     (case intern coord st of
        (sid, st') \<Rightarrow>
          intern_loop rest (route_stops @ [sid]) (route_stop_coords @ [(fst coord, snd coord)]) st')"

section \<open>Processing the files of a run\<close>

definition stop_time_rows :: "nat \<Rightarrow> nat list \<Rightarrow> real list \<Rightarrow> stop_time list" where
  "stop_time_rows idx route_stops travel_times =
     map (\<lambda>(stop_seq, sid, travel_time).
            \<lparr>trip_id = idx,
             arrival_time = seconds_to_gtfs_time (6 * 3600 + travel_time),
             departure_time = seconds_to_gtfs_time (6 * 3600 + travel_time),
             st_stop_id = sid,
             stop_sequence = stop_seq + 1\<rparr>)
         (enumerate 0 (zip route_stops travel_times))"

definition shape_rows :: "nat \<Rightarrow> point list \<Rightarrow> shape_pt list" where
  "shape_rows sid points =
     map (\<lambda>(shape_idx, coord).
            \<lparr>shape_id = sid, shape_pt_lat = snd coord, shape_pt_lon = fst coord,
             shape_pt_sequence = shape_idx + 1\<rparr>)
         (enumerate 0 points)"

text \<open>
  \<^verbatim>\<open>os.path.splitext(name)[0]\<close> for a name without a directory separator (the names
  come from \<^verbatim>\<open>os.listdir\<close>): the part before the last dot, unless only dots stand
  before it.
\<close>

definition splitext_root :: "string \<Rightarrow> string" where
  "splitext_root name =
     (if CHR ''.'' \<in> set name
      then (let dotIndex = length name - 1 - length (takeWhile (\<lambda>c. c \<noteq> CHR ''.'') (rev name))
            in if list_ex (\<lambda>c. c \<noteq> CHR ''.'') (take dotIndex name)
               then take dotIndex name else name)
      else name)"

text \<open>
  The body of the \<^verbatim>\<open>try\<close> block from \<^verbatim>\<open>generate_stops_and_times\<close> on, the same text in
  both multi-route scripts. The result is the exception that left the block, if any, and
  the state at that moment: what the block had already stored stays stored when the
  \<^verbatim>\<open>except\<close> clause catches the exception and the loop continues.
\<close>

definition route_body :: "geodesic \<Rightarrow> real \<Rightarrow> real \<Rightarrow> nat \<Rightarrow> string \<Rightarrow> point list \<Rightarrow>
    run_state \<Rightarrow> error option \<times> run_state" where
  "route_body G speed_kmh stop_dist idx filename points st =
     (case generate_stops_and_times G points stop_dist of
        Inl e \<Rightarrow> (Some e, st)
      | Inr interpolated_stops \<Rightarrow>
          (case intern_loop interpolated_stops [] [] st of
             (route_stops, route_stop_coords, st1) \<Rightarrow>
               (case calculate_travel_times G route_stop_coords speed_kmh of
                  Inl e \<Rightarrow> (Some e, st1)
                | Inr travel_times \<Rightarrow>
                    (None,
                     st1\<lparr>all_stop_times :=
                           all_stop_times st1 @ stop_time_rows idx route_stops travel_times,
                         all_shapes := all_shapes st1 @ shape_rows idx points,
                         routes_data := routes_data st1 @
                           [\<lparr>route_id = idx, route_name = splitext_root filename,
                             route_shape_id = idx, stops = route_stops\<rparr>]\<rparr>))))"

text \<open>
  An input file is its name with what the parser does on it. \<^verbatim>\<open>process_gpx_file\<close>
  raises or returns the points; \<^verbatim>\<open>process_kml_file\<close> catches every exception itself
  and returns the points it found, possibly none, and the KML loop skips a file without
  points before it resamples.
\<close>

type_synonym gpx_file = "string \<times> (error + point list)"
type_synonym kml_file = "string \<times> point list"

definition process_gpx :: "geodesic \<Rightarrow> real \<Rightarrow> real \<Rightarrow> nat \<Rightarrow> gpx_file \<Rightarrow> run_state \<Rightarrow>
    error option \<times> run_state" where
  "process_gpx G speed_kmh stop_dist idx file st =
     (case snd file of
        Inl e \<Rightarrow> (Some e, st)
      | Inr points \<Rightarrow> route_body G speed_kmh stop_dist idx (fst file) points st)"

definition process_kml :: "geodesic \<Rightarrow> real \<Rightarrow> real \<Rightarrow> nat \<Rightarrow> kml_file \<Rightarrow> run_state \<Rightarrow>
    error option \<times> run_state" where
  "process_kml G speed_kmh stop_dist idx file st =
     (if snd file = [] then (None, st)
      else route_body G speed_kmh stop_dist idx (fst file) (snd file) st)"

text \<open>
  \<^verbatim>\<open>for idx, name in enumerate(files, start=1)\<close>: the index advances with every file,
  whatever the body did.
\<close>

fun run_loop :: "(nat \<Rightarrow> 'f \<Rightarrow> run_state \<Rightarrow> error option \<times> run_state) \<Rightarrow> nat \<Rightarrow> 'f list \<Rightarrow>
    run_state \<Rightarrow> run_state" where
  "run_loop body idx [] st = st"
| "run_loop body idx (file # files) st = run_loop body (Suc idx) files (snd (body idx file st))"

section \<open>Transfers and the written feed\<close>

text \<open>
  \<^verbatim>\<open>KDTree(stop_coords).query_ball_point(x, r)\<close> is library code: the indices of the
  points at Euclidean distance at most \<open>r\<close> from \<open>x\<close>.
\<close>

definition query_ball_point :: "(real \<times> real) list \<Rightarrow> real \<times> real \<Rightarrow> real \<Rightarrow> nat list" where
  "query_ball_point data x r = filter (\<lambda>j. euclid (data ! j) x \<le> r) [0..<length data]"

definition transfers :: "run_state \<Rightarrow> (nat \<times> nat) list" where
  "transfers st =
     (if length (stop_coords st) > 1
      then concat (map (\<lambda>i.
             map (\<lambda>j. (stop_id (all_stops st ! i), stop_id (all_stops st ! j)))
               (filter (\<lambda>j. i \<noteq> j \<and> stop_id (all_stops st ! i) \<noteq> stop_id (all_stops st ! j))
                  (query_ball_point (stop_coords st) (stop_coords st ! i) (3 / 10000))))
             [0..<length (stop_coords st)])
      else [])"

text \<open>
  The tables written from the state. \<^verbatim>\<open>agency.txt\<close> and \<^verbatim>\<open>calendar.txt\<close> hold one
  constant row each and are left out. The rows of \<^verbatim>\<open>transfers.txt\<close> come from iterating
  over \<^verbatim>\<open>set(transfers)\<close>, in no specified order: the table is a set of rows.
\<close>

record feed =
  stops_txt :: "(nat \<times> string \<times> real \<times> real) list"
  routes_txt :: "(nat \<times> nat \<times> string \<times> string \<times> nat) list"
  trips_txt :: "(nat \<times> nat \<times> nat \<times> nat) list"
  stop_times_txt :: "(nat \<times> string \<times> string \<times> nat \<times> nat) list"
  frequencies_txt :: "(nat \<times> string \<times> string \<times> int) list"
  shapes_txt :: "(nat \<times> real \<times> real \<times> nat) list"
  transfers_txt :: "(nat \<times> nat \<times> nat \<times> nat) set"

definition write_feed :: "int \<Rightarrow> run_state \<Rightarrow> feed" where
  "write_feed frequency_headway st =
     \<lparr>stops_txt = map (\<lambda>s. (stop_id s, stop_name s, stop_lat s, stop_lon s)) (all_stops st),
      routes_txt = map (\<lambda>r. (route_id r, 1, route_name r, route_name r, 3)) (routes_data st),
      trips_txt = map (\<lambda>r. (route_id r, 1, route_id r, route_shape_id r)) (routes_data st),
      stop_times_txt =
        map (\<lambda>t. (trip_id t, arrival_time t, departure_time t, st_stop_id t, stop_sequence t))
          (all_stop_times st),
      frequencies_txt =
        map (\<lambda>r. (route_id r, ''06:00:00'', ''22:00:00'', frequency_headway)) (routes_data st),
      shapes_txt =
        map (\<lambda>p. (shape_id p, shape_pt_lat p, shape_pt_lon p, shape_pt_sequence p))
          (all_shapes st),
      transfers_txt = (\<lambda>(from_id, to_id). (from_id, to_id, 0, 60)) ` set (transfers st)\<rparr>"

text \<open>
  A run either leaves through \<^verbatim>\<open>sys.exit\<close> before anything is written, or writes the
  tables and packs them into \<^verbatim>\<open>gtfs.zip\<close>. Both scripts exit with status 1 on an empty
  file listing. Only \<^verbatim>\<open>multiple_kml.py\<close> has the test \<^verbatim>\<open>if not routes_data\<close> after the
  loop.
\<close>

datatype outcome = Exit nat | Archive feed

definition gpx_final :: "geodesic \<Rightarrow> real \<Rightarrow> real \<Rightarrow> gpx_file list \<Rightarrow> run_state" where
  "gpx_final G speed_kmh stop_dist gpx_files =
     run_loop (process_gpx G speed_kmh stop_dist) 1 gpx_files init_state"

definition kml_final :: "geodesic \<Rightarrow> real \<Rightarrow> real \<Rightarrow> kml_file list \<Rightarrow> run_state" where
  "kml_final G speed_kmh stop_dist kml_files =
     run_loop (process_kml G speed_kmh stop_dist) 1 kml_files init_state"

definition run_gpx :: "geodesic \<Rightarrow> real \<Rightarrow> real \<Rightarrow> int \<Rightarrow> gpx_file list \<Rightarrow> outcome" where
  "run_gpx G speed_kmh stop_dist frequency_headway gpx_files =
     (if gpx_files = [] then Exit 1
      else Archive (write_feed frequency_headway (gpx_final G speed_kmh stop_dist gpx_files)))"

definition run_kml :: "geodesic \<Rightarrow> real \<Rightarrow> real \<Rightarrow> int \<Rightarrow> kml_file list \<Rightarrow> outcome" where
  "run_kml G speed_kmh stop_dist frequency_headway kml_files =
     (if kml_files = [] then Exit 1
      else (let st = kml_final G speed_kmh stop_dist kml_files
            in if routes_data st = [] then Exit 1
               else Archive (write_feed frequency_headway st)))"

section \<open>Invariants of the stop registry\<close>

text \<open>
  What the interning loop keeps true of the registry: the stops carry the identities
  \<open>1, 2, \<dots>\<close> in order, up to the counter; an identity found in the dictionary is
  that of the stop whose stored coordinate has the key; \<open>stop_coords\<close> runs in step with
  \<open>all_stops\<close>; and there are as many keys as stops.
\<close>

definition registry_inv :: "run_state \<Rightarrow> bool" where
  "registry_inv st \<longleftrightarrow>
     map stop_id (all_stops st) = [1..<stop_counter st] \<and> 1 \<le> stop_counter st \<and>
     (\<forall>k i. stop_id_map st k = Some i \<longrightarrow>
        1 \<le> i \<and> i < stop_counter st \<and>
        stop_key (stop_lon (all_stops st ! (i - 1)), stop_lat (all_stops st ! (i - 1))) = k) \<and>
     stop_coords st = map (\<lambda>s. (stop_lat s, stop_lon s)) (all_stops st) \<and>
     finite (dom (stop_id_map st)) \<and> card (dom (stop_id_map st)) = length (all_stops st)"

text \<open>
  The state \<open>st\<close> and the identities \<open>ids\<close> after the coordinates \<open>cs\<close> were interned
  from the state \<open>st0\<close>.
\<close>

definition interned :: "run_state \<Rightarrow> point list \<Rightarrow> nat list \<Rightarrow> run_state \<Rightarrow> bool" where
  "interned st0 cs ids st \<longleftrightarrow>
     length ids = length cs \<and> registry_inv st \<and>
     (\<forall>i<length cs. stop_id_map st (stop_key (cs ! i)) = Some (ids ! i)) \<and>
     dom (stop_id_map st) = dom (stop_id_map st0) \<union> stop_key ` set cs \<and>
     (\<forall>k i. stop_id_map st0 k = Some i \<longrightarrow> stop_id_map st k = Some i) \<and>
     (\<exists>new. all_stops st = all_stops st0 @ new) \<and>
     (\<forall>i<length cs. stop_id_map st0 (stop_key (cs ! i)) = None \<longrightarrow>
        (\<forall>j<i. stop_key (cs ! j) \<noteq> stop_key (cs ! i)) \<longrightarrow>
        all_stops st ! (ids ! i - 1) =
          \<lparr>stop_id = ids ! i, stop_name = ''Stop '' @ str_nat (ids ! i),
           stop_lat = snd (cs ! i), stop_lon = fst (cs ! i)\<rparr>)"

section \<open>Files that yield a route\<close>

text \<open>
  Whether the \<^verbatim>\<open>try\<close> block runs to its end on the points of a file: the resampling
  and the travel times both return. Neither depends on the state or on the index.
\<close>

definition route_ok :: "geodesic \<Rightarrow> real \<Rightarrow> real \<Rightarrow> point list \<Rightarrow> bool" where
  "route_ok G speed_kmh stop_dist points =
     (case generate_stops_and_times G points stop_dist of
        Inl e \<Rightarrow> False
      | Inr interpolated_stops \<Rightarrow>
          (case calculate_travel_times G interpolated_stops speed_kmh of
             Inl e \<Rightarrow> False
           | Inr travel_times \<Rightarrow> True))"

definition gpx_ok :: "geodesic \<Rightarrow> real \<Rightarrow> real \<Rightarrow> gpx_file \<Rightarrow> bool" where
  "gpx_ok G speed_kmh stop_dist file =
     (case snd file of Inl e \<Rightarrow> False | Inr points \<Rightarrow> route_ok G speed_kmh stop_dist points)"

definition kml_ok :: "geodesic \<Rightarrow> real \<Rightarrow> real \<Rightarrow> kml_file \<Rightarrow> bool" where
  "kml_ok G speed_kmh stop_dist file =
     (snd file \<noteq> [] \<and> route_ok G speed_kmh stop_dist (snd file))"

text \<open>
  Every stop-time row and every shape row belongs to a route of the routes list.
\<close>

definition ids_linked :: "run_state \<Rightarrow> bool" where
  "ids_linked st \<longleftrightarrow>
     trip_id ` set (all_stop_times st) \<subseteq> route_id ` set (routes_data st) \<and>
     shape_id ` set (all_shapes st) \<subseteq> route_id ` set (routes_data st)"

section \<open>Properties of the travel times\<close>

lemma travel_loop_ok:
  "speed_ms \<noteq> 0 \<Longrightarrow>
   \<exists>ts'. travel_loop G speed_ms coords ts = Inr (ts @ ts') \<and> length ts' = length coords - 1"
proof (induction G speed_ms coords ts rule: travel_loop.induct)
  case (1 G speed_ms p q rest ts)
  then show ?case by force
qed simp_all

lemma sorted_snoc_last:
  fixes ts :: "real list"
  assumes "sorted ts" and "0 \<le> d"
  shows "sorted (ts @ [last ts + d])"
proof -
  have "y \<le> last ts + d" if "y \<in> set ts" for y
  proof -
    from that obtain i where i: "i < length ts" "ts ! i = y"
      by (auto simp: in_set_conv_nth)
    then have "ts \<noteq> []" by auto
    then have "last ts = ts ! (length ts - 1)" by (simp add: last_conv_nth)
    moreover have "ts ! i \<le> ts ! (length ts - 1)"
      using assms(1) i(1) by (intro sorted_nth_mono) auto
    ultimately show ?thesis using i(2) assms(2) by simp
  qed
  then show ?thesis using assms(1) by (simp add: sorted_append)
qed

lemma travel_loop_sorted:
  "0 < speed_ms \<Longrightarrow> \<forall>a b. 0 \<le> G a b \<Longrightarrow> sorted ts \<Longrightarrow>
   travel_loop G speed_ms coords ts = Inr r \<Longrightarrow> sorted r"
proof (induction G speed_ms coords ts arbitrary: r rule: travel_loop.induct)
  case (1 G speed_ms p q rest ts)
  have "0 \<le> G (latlon p) (latlon q)"
    using 1(3) by blast
  then have "0 \<le> G (latlon p) (latlon q) / speed_ms"
    using 1(2) by simp
  then have "sorted (ts @ [last ts + G (latlon p) (latlon q) / speed_ms])"
    using 1(4) by (rule sorted_snoc_last[rotated])
  then show ?case using 1 by simp
qed simp_all

lemma travel_loop_fails:
  "(\<exists>e. travel_loop G speed_ms coords ts = Inl e) \<longleftrightarrow> (speed_ms = 0 \<and> 2 \<le> length coords)"
proof (induction G speed_ms coords ts rule: travel_loop.induct)
  case (1 G speed_ms p q rest ts)
  then show ?case by auto
qed simp_all

lemma travel_loop_error:
  "travel_loop G speed_ms coords ts = Inl e \<Longrightarrow> e = ZeroDivisionError"
proof (induction G speed_ms coords ts rule: travel_loop.induct)
  case (1 G speed_ms p q rest ts)
  then show ?case by (auto split: if_splits)
qed simp_all

text \<open>
  Claim C5. For a non-empty sequence of stop coordinates and a positive speed (the
  geodesic distance being non-negative), \<^verbatim>\<open>calculate_travel_times\<close> returns a list of
  the same length as the stops, whose first element is 0, which is non-decreasing and
  whose elements are all non-negative.
\<close>

theorem cumulative_times_shape:
  assumes "coords \<noteq> []" and "0 < speed_kmh" and "\<forall>a b. 0 \<le> G a b"
  shows "\<exists>ts. calculate_travel_times G coords speed_kmh = Inr ts \<and> length ts = length coords \<and>
           hd ts = 0 \<and> sorted ts \<and> (\<forall>t \<in> set ts. 0 \<le> t)"
proof -
  let ?v = "speed_kmh * 1000 / 3600"
  have v: "0 < ?v" using assms(2) by simp
  then obtain ts' where ts': "travel_loop G ?v coords [0] = Inr ([0] @ ts')"
      "length ts' = length coords - 1"
    using travel_loop_ok[of ?v G coords "[0]"] by auto
  let ?ts = "[0] @ ts'"
  have r: "calculate_travel_times G coords speed_kmh = Inr ?ts"
    using ts'(1) by (simp add: calculate_travel_times_def)
  have len: "length ?ts = length coords"
    using ts'(2) assms(1) by (cases coords) auto
  have srt: "sorted ?ts"
    using travel_loop_sorted[OF v assms(3) _ ts'(1)] by simp
  have "\<forall>t \<in> set ?ts. 0 \<le> t" using srt by auto
  with r len srt show ?thesis by auto
qed

theorem cumulative_times_shape_witness:
  "calculate_travel_times taxicab_m [(0, 0), (1 / 100, 0), (2 / 100, 0)] 36 = Inr [0, 100, 200]"
proof -
  have nn: "\<forall>a b. 0 \<le> taxicab_m a b"
    by (simp add: taxicab_m_def)
  have "[(0, 0), (1 / 100, 0), (2 / 100, 0)] \<noteq> ([] :: point list)" and "(0::real) < 36"
    by simp_all
  from cumulative_times_shape[OF this nn] show ?thesis
    by (simp add: calculate_travel_times_def taxicab_m_def latlon_def)
qed

text \<open>
  Claim C7, as the code has it. No script tests the speed. The computation fails exactly
  when the speed is 0 and there are at least two stops, and the exception is the
  \<^verbatim>\<open>ZeroDivisionError\<close> of \<^verbatim>\<open>distance / speed_ms\<close>; a negative speed is accepted. The
  loop of \<^verbatim>\<open>main.py\<close> is the same computation.
\<close>

theorem travel_times_fail_iff:
  "((\<exists>e. calculate_travel_times G coords speed_kmh = Inl e) \<longleftrightarrow>
      (speed_kmh = 0 \<and> 2 \<le> length coords)) \<and>
   ((calculate_travel_times G coords speed_kmh = Inl ZeroDivisionError) \<longleftrightarrow>
      (speed_kmh = 0 \<and> 2 \<le> length coords)) \<and>
   main_times G coords speed_kmh = calculate_travel_times G coords speed_kmh"
proof -
  have a: "(\<exists>e. calculate_travel_times G coords speed_kmh = Inl e) \<longleftrightarrow>
      (speed_kmh = 0 \<and> 2 \<le> length coords)"
    unfolding calculate_travel_times_def travel_loop_fails by simp
  have "calculate_travel_times G coords speed_kmh = Inl e \<Longrightarrow> e = ZeroDivisionError" for e
    unfolding calculate_travel_times_def by (rule travel_loop_error)
  moreover have "main_times G coords speed_kmh = calculate_travel_times G coords speed_kmh"
    by (simp add: main_times_def calculate_travel_times_def)
  ultimately show ?thesis using a by blast
qed

theorem travel_times_fail_iff_witness:
  "calculate_travel_times taxicab_m [(0, 0), (1 / 100, 0)] 0 = Inl ZeroDivisionError \<and>
   main_times taxicab_m [(0, 0), (1 / 100, 0)] 0 = Inl ZeroDivisionError"
  using travel_times_fail_iff[of taxicab_m "[(0, 0), (1 / 100, 0)]" 0] by simp

text \<open>
  A negative speed is never rejected, whatever the distances are.
\<close>

lemma negative_speed_accepted:
  "speed_kmh < 0 \<Longrightarrow> \<exists>ts. calculate_travel_times G coords speed_kmh = Inr ts"
  using travel_loop_ok[of "speed_kmh * 1000 / 3600" G coords "[0]"]
  by (auto simp: calculate_travel_times_def)

text \<open>
  The claim as stated fails: a speed of \<open>-36\<close> km/h is not rejected. On two stops at
  the same place, where the geodesic distance is 0, the function returns the times
  \<open>[0, 0]\<close>.
\<close>

theorem negative_speed_counterexample:
  "calculate_travel_times taxicab_m [(0, 0), (0, 0)] (- 36) = Inr [0, 0]"
  by (simp add: calculate_travel_times_def taxicab_m_def latlon_def)

section \<open>Properties of the resampling\<close>

lemma euclid_nonneg: "0 \<le> euclid a b"
  by (simp add: euclid_def)

lemma euclid_zero_iff: "euclid a b = 0 \<longleftrightarrow> a = b"
  by (auto simp: euclid_def prod_eq_iff sum_power2_eq_zero_iff)

lemma euclid_sym: "euclid a b = euclid b a"
  by (simp add: euclid_def power2_commute)

lemma euclid_lon: "euclid (a, c) (b, c) = \<bar>a - b\<bar>"
  by (simp add: euclid_def)

lemma path_length_nonneg: "0 \<le> path_length p qs"
  by (induction qs arbitrary: p) (simp_all add: euclid_nonneg)

lemma path_length_zero_last: "path_length p qs = 0 \<Longrightarrow> last (p # qs) = p"
proof (induction qs arbitrary: p)
  case Nil
  then show ?case by simp
next
  case (Cons q qs)
  have "euclid p q = 0" "path_length q qs = 0"
    using Cons.prems euclid_nonneg[of p q] path_length_nonneg[of q qs] by auto
  then show ?case using Cons.IH[of q] by (simp add: euclid_zero_iff)
qed

lemma walk_to_end:
  "total_len + path_length p qs \<le> d \<Longrightarrow> walk p qs total_len d = last (p # qs)"
proof (induction qs arbitrary: p total_len)
  case Nil
  then show ?case by simp
next
  case (Cons q qs)
  have "total_len + euclid p q \<le> d"
    using Cons.prems path_length_nonneg[of q qs] by simp
  moreover have "walk q qs (total_len + euclid p q) d = last (q # qs)"
    using Cons.prems by (intro Cons.IH) (simp add: add.assoc)
  ultimately show ?case by simp
qed

lemma interpolate_start: "interpolate line 0 = fst line"
  by (simp add: interpolate_def)

lemma interpolate_end: "interpolate line (line_length line) = last (fst line # snd line)"
proof -
  have nn: "0 \<le> line_length line"
    by (simp add: line_length_def path_length_nonneg)
  show ?thesis
  proof (cases "line_length line = 0")
    case True
    then show ?thesis
      using path_length_zero_last[of "fst line" "snd line"]
      by (simp add: interpolate_def line_length_def)
  next
    case False
    with nn have "0 < line_length line" by simp
    then show ?thesis
      using walk_to_end[of 0 "fst line" "snd line" "line_length line"]
      by (simp add: interpolate_def line_length_def)
  qed
qed

lemma resample_ends:
  assumes "1 \<le> n"
  shows "length (map (\<lambda>i. interpolate line (line_length line / of_int n * of_int i)) [0..n])
           = nat n + 1"
    and "hd (map (\<lambda>i. interpolate line (line_length line / of_int n * of_int i)) [0..n])
           = fst line"
    and "last (map (\<lambda>i. interpolate line (line_length line / of_int n * of_int i)) [0..n])
           = last (fst line # snd line)"
proof -
  let ?f = "\<lambda>i. interpolate line (line_length line / of_int n * of_int i)"
  show "length (map ?f [0..n]) = nat n + 1" using assms by simp
  have ne: "[0..n] \<noteq> []" using assms by simp
  have "hd [0..n] = 0" using assms by (simp add: upto.simps)
  then show "hd (map ?f [0..n]) = fst line"
    using ne by (simp add: hd_map interpolate_start)
  have "last [0..n] = n" using assms by (simp add: upto_rec2)
  then have "last (map ?f [0..n]) = ?f n" using ne by (simp add: last_map)
  also have "\<dots> = interpolate line (line_length line)" using assms by simp
  finally show "last (map ?f [0..n]) = last (fst line # snd line)"
    by (simp add: interpolate_end)
qed

text \<open>
  What claim C1 says holds of \<^verbatim>\<open>generate_stops_and_times\<close>, the resampler of the two
  multi-route scripts: on a route of at least two points and a non-zero spacing it
  returns \<open>max(floor(L/S), 1) + 1\<close> stops, the first and the last being the first and
  the last input point.
\<close>

lemma generate_stops_count:
  assumes "2 \<le> length points" and "stop_dist \<noteq> 0"
  shows "\<exists>coords. generate_stops_and_times G points stop_dist = Inr coords \<and>
           length coords = nat (max \<lfloor>geodesic_length G points / stop_dist\<rfloor> 1) + 1 \<and>
           hd coords = hd points \<and> last coords = last points"
proof -
  from assms(1) obtain p q rest where pts: "points = p # q # rest"
    by (cases points; cases "tl points") auto
  let ?n = "max \<lfloor>geodesic_length G points / stop_dist\<rfloor> 1"
  have n: "1 \<le> ?n" by simp
  have ls: "LineString points = Inr (p, q # rest)" by (simp add: LineString_def pts)
  have g: "generate_stops_and_times G points stop_dist =
      Inr (map (\<lambda>i. interpolate (p, q # rest)
                  (line_length (p, q # rest) / of_int ?n * of_int i)) [0..?n])"
    using assms(2) by (simp add: generate_stops_and_times_def ls Let_def)
  show ?thesis
    unfolding g using resample_ends[OF n, of "(p, q # rest)"] by (simp add: pts)
qed

lemma main_interpolated_long:
  assumes "stop_dist \<le> geodesic_length G points" and "0 < stop_dist"
  shows "main_interpolated G points stop_dist = generate_stops_and_times G points stop_dist"
proof -
  define n where "n = \<lfloor>geodesic_length G points / stop_dist\<rfloor>"
  have "1 \<le> n"
    unfolding n_def using assms by (simp add: le_floor_iff)
  then have n: "n \<noteq> 0" "max n 1 = n" by simp_all
  show ?thesis
    using assms(2) n
    unfolding main_interpolated_def generate_stops_and_times_def Let_def n_def[symmetric]
    by (simp split: sum.splits)
qed

text \<open>
  Claim C1 on \<^verbatim>\<open>main.py\<close>. The single-route script computes the stop count without
  the lower bound of 1. On a route of at least two points whose geodesic length is less
  than the (positive) spacing the count is 0 and \<^verbatim>\<open>line.length / num_stops\<close> raises
  \<^verbatim>\<open>ZeroDivisionError\<close>: no stop is produced, where the claim promises two and where
  the resampler of the multi-route scripts returns the first and the last point.
\<close>

theorem main_short_route_divides_by_zero:
  assumes "2 \<le> length points" and "0 < stop_dist"
    and "0 \<le> geodesic_length G points" and "geodesic_length G points < stop_dist"
  shows "main_interpolated G points stop_dist = Inl ZeroDivisionError \<and>
         generate_stops_and_times G points stop_dist = Inr [hd points, last points]"
proof -
  from assms(1) obtain p q rest where pts: "points = p # q # rest"
    by (cases points; cases "tl points") auto
  have fl: "\<lfloor>geodesic_length G points / stop_dist\<rfloor> = 0"
    using assms(2,3,4) by (simp add: floor_eq_iff)
  have m: "main_interpolated G points stop_dist = Inl ZeroDivisionError"
    using assms(2) fl unfolding main_interpolated_def Let_def
    by (simp add: LineString_def pts del: geodesic_length.simps)
  from assms(2) have "stop_dist \<noteq> 0" by simp
  from generate_stops_count[OF assms(1) this, of G]
  obtain coords where s: "generate_stops_and_times G points stop_dist = Inr coords"
      "length coords = 2" "hd coords = hd points" "last coords = last points"
    unfolding fl by auto
  from s(2) obtain a b where "coords = [a, b]"
    by (cases coords; cases "tl coords") auto
  with s(1,3,4) m show ?thesis by simp
qed

theorem main_short_route_divides_by_zero_witness:
  "main_interpolated taxicab_m [(0, 0), (3 / 100, 0)] 5000 = Inl ZeroDivisionError \<and>
   generate_stops_and_times taxicab_m [(0, 0), (3 / 100, 0)] 5000 = Inr [(0, 0), (3 / 100, 0)]"
  using main_short_route_divides_by_zero[of "[(0, 0), (3 / 100, 0)]" 5000 taxicab_m]
  by (simp add: taxicab_m_def latlon_def)

section \<open>Properties of the time strings\<close>

lemma floor_div_const:
  fixes x :: real and m :: int
  assumes "0 < m"
  shows "\<lfloor>x / of_int m\<rfloor> = \<lfloor>x\<rfloor> div m"
  using assms by (simp add: floor_divide_real_eq_div)

lemma floor_fmod:
  fixes x :: real and m :: int
  assumes "0 < m"
  shows "\<lfloor>fmod x (of_int m)\<rfloor> = \<lfloor>x\<rfloor> mod m"
proof -
  have "fmod x (of_int m) = x - of_int (m * (\<lfloor>x\<rfloor> div m))"
    using assms by (simp add: fmod_def floor_div_const)
  then have "\<lfloor>fmod x (of_int m)\<rfloor> = \<lfloor>x\<rfloor> - m * (\<lfloor>x\<rfloor> div m)"
    by (simp only: floor_diff_of_int)
  then show ?thesis by (simp add: minus_mult_div_eq_mod)
qed

lemma fmod_nonneg:
  fixes x :: real and m :: int
  assumes "0 < m"
  shows "0 \<le> fmod x (of_int m)"
proof -
  have "of_int m * of_int \<lfloor>x / of_int m\<rfloor> \<le> of_int m * (x / of_int m)"
    using assms by (intro mult_left_mono) simp_all
  also have "\<dots> = x" using assms by simp
  finally show ?thesis by (simp add: fmod_def)
qed

text \<open>
  The function of the multi-route scripts on a non-negative number of seconds: the three
  fields are the hours, minutes and seconds of the whole seconds, the hours not reduced
  modulo 24.
\<close>

lemma seconds_to_gtfs_time_fields:
  assumes "0 \<le> x"
  shows "seconds_to_gtfs_time x =
           fmt_02d (\<lfloor>x\<rfloor> div 3600) @ '':'' @ fmt_02d (\<lfloor>x\<rfloor> mod 3600 div 60) @ '':'' @
           fmt_02d (\<lfloor>x\<rfloor> mod 60)"
proof -
  have h: "py_int (floordiv x 3600) = \<lfloor>x\<rfloor> div 3600"
    using floor_div_const[of 3600 x] by (simp add: py_int_def floordiv_def)
  have "\<lfloor>fmod x 3600 / 60\<rfloor> = \<lfloor>fmod x 3600\<rfloor> div 60"
    using floor_div_const[of 60 "fmod x 3600"] by simp
  also have "\<dots> = \<lfloor>x\<rfloor> mod 3600 div 60"
    using floor_fmod[of 3600 x] by simp
  finally have m: "py_int (floordiv (fmod x 3600) 60) = \<lfloor>x\<rfloor> mod 3600 div 60"
    by (simp add: py_int_def floordiv_def)
  have "0 \<le> fmod x 60" using fmod_nonneg[of 60 x] by simp
  then have s: "py_int (fmod x 60) = \<lfloor>x\<rfloor> mod 60"
    using floor_fmod[of 60 x] by (simp add: py_int_def)
  show ?thesis
    unfolding seconds_to_gtfs_time_def Let_def h m s ..
qed

lemma str_nat_length: "1 \<le> length (str_nat n)"
  by (induction n rule: str_nat.induct) (subst str_nat.simps, simp)

lemma str_nat_lt_100:
  assumes "n < 100"
  shows "length (str_nat n) \<le> 2"
proof (cases "n < 10")
  case True
  then show ?thesis by (subst str_nat.simps) simp
next
  case False
  have "n div 10 < 10" using assms by simp
  then have "length (str_nat (n div 10)) = 1" by (subst str_nat.simps) simp
  then show ?thesis using False by (subst str_nat.simps) simp
qed

text \<open>A non-negative field has at least two characters, and exactly two below 100.\<close>

lemma fmt_02d_length:
  assumes "0 \<le> i"
  shows "2 \<le> length (fmt_02d i)" and "i < 100 \<Longrightarrow> length (fmt_02d i) = 2"
proof -
  have s: "str_int i = str_nat (nat i)" using assms by (simp add: str_int_def)
  show "2 \<le> length (fmt_02d i)"
    by (simp add: fmt_02d_def Let_def s)
  assume "i < 100"
  then have "length (str_nat (nat i)) \<le> 2" by (intro str_nat_lt_100) simp
  then show "length (fmt_02d i) = 2"
    by (simp add: fmt_02d_def Let_def s)
qed

lemmas time_string_eval =
  seconds_to_gtfs_time_def main_hhmmss_def timedelta_str_def floordiv_def fmod_def py_int_def
  str_int_def fmt_02d_def str_nat.simps digit_def Let_def

text \<open>The string of a \<^verbatim>\<open>timedelta\<close> of less than a day.\<close>

lemma div_60_60: "(n::int) div 60 div 60 = n div 3600"
  by (simp add: zdiv_zmult2_eq[symmetric])

lemma div_60_mod_60: "(n::int) div 60 mod 60 = n mod 3600 div 60"
proof -
  have "n mod 3600 = n mod (60 * 60)" by simp
  also have "\<dots> = 60 * (n div 60 mod 60) + n mod 60"
    by (rule zmod_zmult2_eq) simp
  finally have "n mod 3600 div 60 = (60 * (n div 60 mod 60) + n mod 60) div 60" by simp
  also have "\<dots> = n div 60 mod 60" by simp
  finally show ?thesis by simp
qed

lemma timedelta_str_day:
  assumes "0 \<le> n" and "n < 86400"
  shows "timedelta_str n =
           str_int (n div 3600) @ '':'' @ fmt_02d (n mod 3600 div 60) @ '':'' @ fmt_02d (n mod 60)"
proof -
  have d: "n div 86400 = 0" "n mod 86400 = n" using assms by simp_all
  show ?thesis
    unfolding timedelta_str_def Let_def d div_60_60 div_60_mod_60 by simp
qed

text \<open>
  Claim C8 on \<^verbatim>\<open>main.py\<close>. The single-route script does not call
  \<^verbatim>\<open>seconds_to_gtfs_time\<close>: it writes \<^verbatim>\<open>str(timedelta(seconds=int(seconds)))\<close>, with
  no start of service added. For every offset of less than ten hours the string has the
  hours unpadded and is seven characters long, where the function of the multi-route
  scripts gives the eight characters of \<^verbatim>\<open>HH:MM:SS\<close> past 06:00:00; and 25 hours
  come out as \<^verbatim>\<open>1 day, 1:00:00\<close>, the hours wrapped at 24, where the multi-route
  function gives \<^verbatim>\<open>31:00:00\<close>.
\<close>

theorem main_time_strings:
  assumes "0 \<le> x" and "x < 36000"
  shows "main_hhmmss x =
           str_int (\<lfloor>x\<rfloor> div 3600) @ '':'' @ fmt_02d (\<lfloor>x\<rfloor> mod 3600 div 60) @ '':'' @
           fmt_02d (\<lfloor>x\<rfloor> mod 60) \<and>
         length (main_hhmmss x) = 7 \<and>
         length (seconds_to_gtfs_time (6 * 3600 + x)) = 8 \<and>
         main_hhmmss 90000 = ''1 day, 1:00:00'' \<and>
         seconds_to_gtfs_time (6 * 3600 + 90000) = ''31:00:00''"
proof -
  define n where "n = \<lfloor>x\<rfloor>"
  have n: "0 \<le> n" "n < 36000" using assms by (simp_all add: n_def floor_less_iff)
  have "main_hhmmss x = timedelta_str n"
    using assms(1) by (simp add: main_hhmmss_def py_int_def n_def)
  also have "\<dots> = str_int (n div 3600) @ '':'' @ fmt_02d (n mod 3600 div 60) @ '':'' @
           fmt_02d (n mod 60)"
    using n by (intro timedelta_str_day) simp_all
  finally have f: "main_hhmmss x = str_int (n div 3600) @ '':'' @
           fmt_02d (n mod 3600 div 60) @ '':'' @ fmt_02d (n mod 60)" .
  have h10: "n div 3600 < 10" using n(2) by (simp add: div_less_iff_less_mult)
  have h0: "0 \<le> n div 3600" using n(1) by (simp add: pos_imp_zdiv_nonneg_iff)
  from h10 h0 have "nat (n div 3600) < 10" by simp
  then have "length (str_nat (nat (n div 3600))) = 1"
    by (subst str_nat.simps) simp
  then have lh: "length (str_int (n div 3600)) = 1"
    using h0 by (simp add: str_int_def)
  have lm: "length (fmt_02d (n mod 3600 div 60)) = 2"
    by (rule fmt_02d_length(2)) (simp_all add: pos_imp_zdiv_nonneg_iff div_less_iff_less_mult)
  have ls: "length (fmt_02d (n mod 60)) = 2"
    by (rule fmt_02d_length(2)) simp_all
  have l7: "length (main_hhmmss x) = 7"
    unfolding f using lh lm ls by simp
  define y where "y = 6 * 3600 + x"
  define k where "k = \<lfloor>y\<rfloor>"
  have y: "0 \<le> y" using assms(1) by (simp add: y_def)
  have k: "k = 21600 + n" by (simp add: k_def y_def n_def)
  have "k div 3600 < 100" "0 \<le> k div 3600"
    using n unfolding k by (simp_all add: pos_imp_zdiv_nonneg_iff div_less_iff_less_mult)
  then have lh': "length (fmt_02d (k div 3600)) = 2"
    by (intro fmt_02d_length(2))
  have lm': "length (fmt_02d (k mod 3600 div 60)) = 2"
    by (rule fmt_02d_length(2)) (simp_all add: pos_imp_zdiv_nonneg_iff div_less_iff_less_mult)
  have ls': "length (fmt_02d (k mod 60)) = 2"
    by (rule fmt_02d_length(2)) simp_all
  have "length (seconds_to_gtfs_time y) = 8"
    unfolding seconds_to_gtfs_time_fields[OF y] k_def[symmetric] using lh' lm' ls' by simp
  then have l8: "length (seconds_to_gtfs_time (6 * 3600 + x)) = 8" by (simp add: y_def)
  have e: "main_hhmmss 90000 = ''1 day, 1:00:00''"
      "seconds_to_gtfs_time (6 * 3600 + 90000) = ''31:00:00''"
    by (simp_all add: time_string_eval)
  from f l7 l8 e show ?thesis unfolding n_def by simp
qed

theorem main_time_strings_witness:
  "main_hhmmss 0 = ''0:00:00'' \<and> main_hhmmss 120 = ''0:02:00'' \<and>
   seconds_to_gtfs_time (6 * 3600 + 0) = ''06:00:00'' \<and>
   seconds_to_gtfs_time (6 * 3600 + 120) = ''06:02:00''"
proof -
  have "(0::real) \<le> 120" and "(120::real) < 36000" by simp_all
  from main_time_strings[OF this] have "main_hhmmss 120 =
      str_int (\<lfloor>120::real\<rfloor> div 3600) @ '':'' @ fmt_02d (\<lfloor>120::real\<rfloor> mod 3600 div 60) @ '':'' @
      fmt_02d (\<lfloor>120::real\<rfloor> mod 60)"
    by blast
  then have "main_hhmmss 120 = ''0:02:00''"
    by (simp add: str_int_def fmt_02d_def str_nat.simps digit_def)
  moreover have "main_hhmmss 0 = ''0:00:00''"
      "seconds_to_gtfs_time (6 * 3600 + 0) = ''06:00:00''"
      "seconds_to_gtfs_time (6 * 3600 + 120) = ''06:02:00''"
    by (simp_all add: time_string_eval)
  ultimately show ?thesis by simp
qed

section \<open>Properties of stop interning\<close>

lemma registry_inv_init: "registry_inv init_state"
  by (simp add: registry_inv_def init_state_def)

lemma intern_old: "stop_id_map st (stop_key c) = Some i \<Longrightarrow> intern c st = (i, st)"
  by (simp add: intern_def)

lemma intern_new:
  "stop_id_map st (stop_key c) = None \<Longrightarrow>
   intern c st =
     (stop_counter st,
      st\<lparr>stop_counter := stop_counter st + 1,
         stop_id_map := (stop_id_map st)(stop_key c \<mapsto> stop_counter st),
         all_stops := all_stops st @
           [\<lparr>stop_id = stop_counter st, stop_name = ''Stop '' @ str_nat (stop_counter st),
             stop_lat = snd c, stop_lon = fst c\<rparr>],
         stop_coords := stop_coords st @ [(snd c, fst c)]\<rparr>)"
  by (simp add: intern_def Let_def)

lemma registry_inv_length:
  assumes "registry_inv st"
  shows "length (all_stops st) = stop_counter st - 1"
proof -
  have "length (map stop_id (all_stops st)) = length [1..<stop_counter st]"
    using assms by (simp add: registry_inv_def)
  then show ?thesis by simp
qed

lemma registry_inv_inj:
  assumes "registry_inv st" "stop_id_map st k = Some i" "stop_id_map st k' = Some i"
  shows "k = k'"
  using assms unfolding registry_inv_def by metis

lemma intern_new_inv:
  assumes inv: "registry_inv st" and new: "stop_id_map st (stop_key c) = None"
  shows "registry_inv (snd (intern c st))"
proof -
  let ?n = "stop_counter st"
  let ?s = "\<lparr>stop_id = ?n, stop_name = ''Stop '' @ str_nat ?n, stop_lat = snd c, stop_lon = fst c\<rparr>"
  let ?st = "snd (intern c st)"
  have len: "length (all_stops st) = ?n - 1" using inv by (rule registry_inv_length)
  have n1: "1 \<le> ?n" using inv by (simp add: registry_inv_def)
  have f: "all_stops ?st = all_stops st @ [?s]" "stop_counter ?st = ?n + 1"
      "stop_id_map ?st = (stop_id_map st)(stop_key c \<mapsto> ?n)"
      "stop_coords ?st = stop_coords st @ [(snd c, fst c)]"
    by (simp_all add: intern_new[OF new])
  have a: "map stop_id (all_stops ?st) = [1..<stop_counter ?st]"
    using inv n1 by (simp add: f registry_inv_def)
  have b: "1 \<le> i \<and> i < stop_counter ?st \<and>
        stop_key (stop_lon (all_stops ?st ! (i - 1)), stop_lat (all_stops ?st ! (i - 1))) = k"
    if "stop_id_map ?st k = Some i" for k i
  proof (cases "k = stop_key c")
    case True
    then have "i = ?n" using that by (simp add: f)
    then show ?thesis using n1 len True by (simp add: f nth_append)
  next
    case False
    then have "stop_id_map st k = Some i" using that by (simp add: f)
    then have i: "1 \<le> i" "i < ?n"
        "stop_key (stop_lon (all_stops st ! (i - 1)), stop_lat (all_stops st ! (i - 1))) = k"
      using inv unfolding registry_inv_def by blast+
    from i(1,2) len have "i - 1 < length (all_stops st)" by simp
    then show ?thesis using i by (simp add: f nth_append)
  qed
  have c: "stop_coords ?st = map (\<lambda>s. (stop_lat s, stop_lon s)) (all_stops ?st)"
    using inv by (simp add: f registry_inv_def)
  have fin: "finite (dom (stop_id_map st))" and crd: "card (dom (stop_id_map st)) = length (all_stops st)"
    using inv by (simp_all add: registry_inv_def)
  have nd: "stop_key c \<notin> dom (stop_id_map st)" using new by (simp add: domIff)
  have d: "finite (dom (stop_id_map ?st))" "card (dom (stop_id_map ?st)) = length (all_stops ?st)"
    using fin crd nd by (simp_all add: f)
  show ?thesis
    unfolding registry_inv_def using a b c d n1 f(2) by (intro conjI allI impI) auto
qed

lemma intern_inv:
  assumes "registry_inv st"
  shows "registry_inv (snd (intern c st))"
proof (cases "stop_id_map st (stop_key c)")
  case None
  then show ?thesis using assms by (rule intern_new_inv[rotated])
next
  case (Some i)
  then show ?thesis using assms by (simp add: intern_old)
qed

lemma intern_lookup:
  "stop_id_map (snd (intern c st)) (stop_key c) = Some (fst (intern c st))"
  by (cases "stop_id_map st (stop_key c)") (simp_all add: intern_new intern_old)

lemma intern_dom:
  "dom (stop_id_map (snd (intern c st))) = insert (stop_key c) (dom (stop_id_map st))"
  by (cases "stop_id_map st (stop_key c)") (auto simp: intern_new intern_old)

lemma intern_keeps:
  "stop_id_map st k = Some i \<Longrightarrow> stop_id_map (snd (intern c st)) k = Some i"
  by (cases "stop_id_map st (stop_key c)") (auto simp: intern_new intern_old)

lemma intern_prefix:
  "\<exists>new. all_stops (snd (intern c st)) = all_stops st @ new"
  by (cases "stop_id_map st (stop_key c)") (auto simp: intern_new intern_old)

lemma intern_other_fields:
  "routes_data (snd (intern c st)) = routes_data st \<and>
   all_shapes (snd (intern c st)) = all_shapes st \<and>
   all_stop_times (snd (intern c st)) = all_stop_times st"
  by (cases "stop_id_map st (stop_key c)") (auto simp: intern_new intern_old)

lemma intern_loop_snoc:
  "intern_loop (cs @ [c]) rs rc st =
     (case intern_loop cs rs rc st of
        (ids, rc', st') \<Rightarrow>
          (ids @ [fst (intern c st')], rc' @ [c], snd (intern c st')))"
  by (induction cs arbitrary: rs rc st) (auto split: prod.splits)

lemma intern_loop_interned:
  assumes "registry_inv st0"
  shows "intern_loop cs [] [] st0 = (ids, rc, st) \<Longrightarrow> rc = cs \<and> interned st0 cs ids st"
proof (induction cs arbitrary: ids rc st rule: rev_induct)
  case Nil
  then show ?case using assms by (simp add: interned_def)
next
  case (snoc c cs)
  obtain ids1 rc1 st1 where l1: "intern_loop cs [] [] st0 = (ids1, rc1, st1)"
    by (cases "intern_loop cs [] [] st0") auto
  from snoc.IH[OF l1] have rc1: "rc1 = cs" and I: "interned st0 cs ids1 st1" by simp_all
  let ?sid = "fst (intern c st1)"
  from snoc.prems l1 have r: "ids = ids1 @ [?sid]" "rc = rc1 @ [c]" "st = snd (intern c st1)"
    by (simp_all add: intern_loop_snoc)
  have len1: "length ids1 = length cs" and inv1: "registry_inv st1"
    and look1: "\<And>i. i < length cs \<Longrightarrow> stop_id_map st1 (stop_key (cs ! i)) = Some (ids1 ! i)"
    and dom1: "dom (stop_id_map st1) = dom (stop_id_map st0) \<union> stop_key ` set cs"
    and keep1: "\<And>k i. stop_id_map st0 k = Some i \<Longrightarrow> stop_id_map st1 k = Some i"
    and pre1: "\<exists>new. all_stops st1 = all_stops st0 @ new"
    and first1: "\<And>i. i < length cs \<Longrightarrow> stop_id_map st0 (stop_key (cs ! i)) = None \<Longrightarrow>
        (\<forall>j<i. stop_key (cs ! j) \<noteq> stop_key (cs ! i)) \<Longrightarrow>
        all_stops st1 ! (ids1 ! i - 1) =
          \<lparr>stop_id = ids1 ! i, stop_name = ''Stop '' @ str_nat (ids1 ! i),
           stop_lat = snd (cs ! i), stop_lon = fst (cs ! i)\<rparr>"
    using I unfolding interned_def by blast+
  have inv: "registry_inv st" unfolding r using inv1 by (rule intern_inv)
  have len: "length ids = length (cs @ [c])" by (simp add: r len1)
  have look: "stop_id_map st (stop_key ((cs @ [c]) ! i)) = Some (ids ! i)"
    if "i < length (cs @ [c])" for i
  proof (cases "i < length cs")
    case True
    then show ?thesis
      using look1[OF True] len1 by (simp add: r nth_append intern_keeps)
  next
    case False
    with that have "i = length cs" by simp
    then show ?thesis using len1 by (simp add: r nth_append intern_lookup)
  qed
  have dm: "dom (stop_id_map st) = dom (stop_id_map st0) \<union> stop_key ` set (cs @ [c])"
    unfolding r intern_dom dom1 by auto
  have keep: "stop_id_map st k = Some i" if "stop_id_map st0 k = Some i" for k i
    unfolding r using keep1[OF that] by (rule intern_keeps)
  have pre: "\<exists>new. all_stops st = all_stops st0 @ new"
    using pre1 intern_prefix[of c st1] unfolding r by auto
  have first: "all_stops st ! (ids ! i - 1) =
          \<lparr>stop_id = ids ! i, stop_name = ''Stop '' @ str_nat (ids ! i),
           stop_lat = snd ((cs @ [c]) ! i), stop_lon = fst ((cs @ [c]) ! i)\<rparr>"
    if i: "i < length (cs @ [c])" and n0: "stop_id_map st0 (stop_key ((cs @ [c]) ! i)) = None"
      and fr: "\<forall>j<i. stop_key ((cs @ [c]) ! j) \<noteq> stop_key ((cs @ [c]) ! i)" for i
  proof (cases "i < length cs")
    case True
    have fr': "\<forall>j<i. stop_key (cs ! j) \<noteq> stop_key (cs ! i)"
    proof (intro allI impI)
      fix j assume "j < i"
      with fr True show "stop_key (cs ! j) \<noteq> stop_key (cs ! i)"
        by (auto simp: nth_append dest!: spec[of _ j])
    qed
    have n0': "stop_id_map st0 (stop_key (cs ! i)) = None"
      using n0 True by (simp add: nth_append)
    have old: "all_stops st1 ! (ids1 ! i - 1) =
          \<lparr>stop_id = ids1 ! i, stop_name = ''Stop '' @ str_nat (ids1 ! i),
           stop_lat = snd (cs ! i), stop_lon = fst (cs ! i)\<rparr>"
      using first1[OF True n0' fr'] .
    have "1 \<le> ids1 ! i \<and> ids1 ! i < stop_counter st1"
      using look1[OF True] inv1 unfolding registry_inv_def by blast
    then have "ids1 ! i - 1 < length (all_stops st1)"
      using registry_inv_length[OF inv1] by arith
    moreover obtain new where "all_stops st = all_stops st1 @ new"
      using intern_prefix[of c st1] unfolding r by auto
    ultimately have "all_stops st ! (ids1 ! i - 1) = all_stops st1 ! (ids1 ! i - 1)"
      by (simp add: nth_append)
    then show ?thesis using old True len1 by (simp add: r nth_append)
  next
    case False
    with i have il: "i = length cs" by simp
    have "stop_key c \<notin> stop_key ` set cs"
    proof
      assume "stop_key c \<in> stop_key ` set cs"
      then obtain j where "j < length cs" "stop_key (cs ! j) = stop_key c"
        by (auto simp: in_set_conv_nth)
      with fr il show False by (auto simp: nth_append dest!: spec[of _ j])
    qed
    moreover have "stop_key c \<notin> dom (stop_id_map st0)"
      using n0 il by (simp add: domIff)
    ultimately have "stop_key c \<notin> dom (stop_id_map st1)" using dom1 by simp
    then have new: "stop_id_map st1 (stop_key c) = None" by (simp add: domIff)
    have "length (all_stops st1) = stop_counter st1 - 1"
      using inv1 by (rule registry_inv_length)
    moreover have "1 \<le> stop_counter st1" using inv1 by (simp add: registry_inv_def)
    ultimately show ?thesis
      using il len1 by (simp add: r intern_new[OF new] nth_append)
  qed
  show ?case
    unfolding interned_def using len inv look dm keep pre first r(2) rc1
    by (intro conjI allI impI) blast+
qed

text \<open>
  The routes of a run intern into the same registry one after the other: that is the
  interning of all their coordinates in one sequence.
\<close>

lemma intern_loop_append:
  assumes "intern_loop xs [] [] st = (ids1, rc1, st1)"
  shows "intern_loop ys [] [] st1 = (ids2, rc2, st2) \<Longrightarrow>
         intern_loop (xs @ ys) [] [] st = (ids1 @ ids2, rc1 @ rc2, st2)"
proof (induction ys arbitrary: ids2 rc2 st2 rule: rev_induct)
  case Nil
  then show ?case using assms by simp
next
  case (snoc y ys)
  obtain ids rc st' where l: "intern_loop ys [] [] st1 = (ids, rc, st')"
    by (cases "intern_loop ys [] [] st1") auto
  from snoc.IH[OF l] have "intern_loop (xs @ ys) [] [] st = (ids1 @ ids, rc1 @ rc, st')" .
  moreover from snoc.prems l have "ids2 = ids @ [fst (intern y st')]" "rc2 = rc @ [y]"
      "st2 = snd (intern y st')"
    by (simp_all add: intern_loop_snoc)
  ultimately show ?case
    using intern_loop_snoc[of "xs @ ys" y "[]" "[]" st] by simp
qed

text \<open>
  The registry after a list of coordinates was interned from the empty registry, in
  terms of the keys.
\<close>

lemma intern_loop_registry:
  assumes "intern_loop cs [] [] init_state = (ids, rc, st)"
  shows "length ids = length cs \<and>
         (\<forall>i<length cs. \<forall>j<length cs.
            (ids ! i = ids ! j) = (stop_key (cs ! i) = stop_key (cs ! j))) \<and>
         stop_counter st = Suc (card (stop_key ` set cs)) \<and>
         map stop_id (all_stops st) = [1..<Suc (card (stop_key ` set cs))] \<and>
         (\<forall>i<length cs. (\<forall>j<i. stop_key (cs ! j) \<noteq> stop_key (cs ! i)) \<longrightarrow>
            all_stops st ! (ids ! i - 1) =
              \<lparr>stop_id = ids ! i, stop_name = ''Stop '' @ str_nat (ids ! i),
               stop_lat = snd (cs ! i), stop_lon = fst (cs ! i)\<rparr>) \<and>
         (\<forall>c i. stop_id_map st (stop_key c) = Some i \<longrightarrow> intern c st = (i, st)) \<and>
         (\<forall>c. stop_id_map st (stop_key c) = None \<longrightarrow>
            fst (intern c st) = stop_counter st \<and>
            stop_counter (snd (intern c st)) = stop_counter st + 1)"
proof -
  have I: "interned init_state cs ids st"
    using intern_loop_interned[OF registry_inv_init assms] by simp
  have len: "length ids = length cs" and inv: "registry_inv st"
    and look: "\<And>i. i < length cs \<Longrightarrow> stop_id_map st (stop_key (cs ! i)) = Some (ids ! i)"
    and dm: "dom (stop_id_map st) = stop_key ` set cs"
    and first: "\<And>i. i < length cs \<Longrightarrow> (\<forall>j<i. stop_key (cs ! j) \<noteq> stop_key (cs ! i)) \<Longrightarrow>
        all_stops st ! (ids ! i - 1) =
          \<lparr>stop_id = ids ! i, stop_name = ''Stop '' @ str_nat (ids ! i),
           stop_lat = snd (cs ! i), stop_lon = fst (cs ! i)\<rparr>"
    using I unfolding interned_def by (simp_all add: init_state_def)
  have eq: "(ids ! i = ids ! j) = (stop_key (cs ! i) = stop_key (cs ! j))"
    if "i < length cs" "j < length cs" for i j
  proof
    assume "ids ! i = ids ! j"
    then have "stop_id_map st (stop_key (cs ! i)) = Some (ids ! j)"
      using look[OF that(1)] by simp
    then show "stop_key (cs ! i) = stop_key (cs ! j)"
      using look[OF that(2)] by (rule registry_inv_inj[OF inv])
  next
    assume "stop_key (cs ! i) = stop_key (cs ! j)"
    then show "ids ! i = ids ! j"
      using look[OF that(1)] look[OF that(2)] by simp
  qed
  have "card (stop_key ` set cs) = length (all_stops st)"
    using inv dm by (simp add: registry_inv_def)
  also have "\<dots> = stop_counter st - 1" using inv by (rule registry_inv_length)
  finally have cnt: "stop_counter st = Suc (card (stop_key ` set cs))"
    using inv by (simp add: registry_inv_def)
  have ids: "map stop_id (all_stops st) = [1..<Suc (card (stop_key ` set cs))]"
    using inv cnt by (simp add: registry_inv_def)
  have new: "fst (intern c st) = stop_counter st \<and>
      stop_counter (snd (intern c st)) = stop_counter st + 1"
    if "stop_id_map st (stop_key c) = None" for c
    by (simp add: intern_new[OF that])
  show ?thesis
    using len eq cnt ids first new intern_old by (intro conjI allI impI) blast+
qed

text \<open>
  \<open>round5\<close> gives the nearest multiple of one hundred-thousandth, the even one on a
  tie.
\<close>

lemma round5_nearest:
  "\<exists>k::int. round5 x = of_int k / 100000 \<and> \<bar>of_int k - x * 100000\<bar> \<le> 1 / 2 \<and>
     (\<bar>of_int k - x * 100000\<bar> = 1 / 2 \<longrightarrow> even k)"
proof -
  define y where "y = x * 100000"
  define f where "f = \<lfloor>y\<rfloor>"
  define r where "r = y - of_int f"
  have r: "0 \<le> r" "r < 1" unfolding r_def f_def by linarith+
  have y: "y = of_int f + r" by (simp add: r_def)
  have rd: "round5 x =
      of_int (if r < 1 / 2 then f else if 1 / 2 < r then f + 1
              else if even f then f else f + 1) / 100000"
    unfolding round5_def Let_def r_def f_def y_def ..
  consider (lo) "r < 1 / 2" | (hi) "1 / 2 < r" | (tie_even) "r = 1 / 2" "even f"
    | (tie_odd) "r = 1 / 2" "odd f"
    by fastforce
  then show ?thesis
  proof cases
    case lo
    have "round5 x = of_int f / 100000"
      using lo by (simp add: rd)
    moreover have "\<bar>of_int f - y\<bar> < 1 / 2" using lo r(1) by (simp add: y)
    ultimately show ?thesis unfolding y_def by (intro exI[of _ f]) auto
  next
    case hi
    have "round5 x = of_int (f + 1) / 100000"
      using hi by (simp add: rd)
    moreover have "\<bar>of_int (f + 1) - y\<bar> < 1 / 2" using hi r(2) by (simp add: y)
    ultimately show ?thesis unfolding y_def by (intro exI[of _ "f + 1"]) auto
  next
    case tie_even
    have "round5 x = of_int f / 100000"
      using tie_even by (simp add: rd)
    moreover have "\<bar>of_int f - y\<bar> = 1 / 2" using tie_even(1) by (simp add: y)
    ultimately show ?thesis unfolding y_def using tie_even(2) by (intro exI[of _ f]) auto
  next
    case tie_odd
    have "round5 x = of_int (f + 1) / 100000"
      using tie_odd by (simp add: rd)
    moreover have "\<bar>of_int (f + 1) - y\<bar> = 1 / 2" using tie_odd(1) by (simp add: y)
    ultimately show ?thesis unfolding y_def using tie_odd(2) by (intro exI[of _ "f + 1"]) auto
  qed
qed

lemma stop_key_fun: "stop_key = (\<lambda>c. (round5 (snd c), round5 (fst c)))"
  by (rule ext) (simp add: stop_key_def)

lemmas intern_eval =
  intern_def stop_key_def round5_def init_state_def Let_def str_nat.simps digit_def

text \<open>
  Claim C6. The key of a coordinate is its latitude and its longitude, each rounded to
  the nearest multiple of one hundred-thousandth (a tie going to the even multiple). Let
  the coordinates \<open>cs\<close> be interned one after the other, starting from the empty
  registry, with identities \<open>ids\<close> and final state \<open>st\<close>. Then two coordinates get the
  same identity exactly when their rounded latitudes are equal and their rounded
  longitudes are equal; the identities handed out are \<open>1, 2, \<dots>\<close> in order, one for
  each distinct key and no more; the stop of a key keeps the unrounded coordinate (and
  the name) of the first coordinate that had the key; and in the state reached, a
  coordinate whose key is present gets the recorded identity and leaves the state as it
  is, while a coordinate with a new key gets the counter as its identity and advances the
  counter by one.
\<close>

theorem stop_interning:
  assumes "intern_loop cs [] [] init_state = (ids, rc, st)"
  shows "length ids = length cs \<and>
         (\<forall>i<length cs. \<forall>j<length cs.
            (ids ! i = ids ! j) =
              (round5 (snd (cs ! i)) = round5 (snd (cs ! j)) \<and>
               round5 (fst (cs ! i)) = round5 (fst (cs ! j)))) \<and>
         stop_counter st = Suc (card ((\<lambda>c. (round5 (snd c), round5 (fst c))) ` set cs)) \<and>
         map stop_id (all_stops st) =
           [1..<Suc (card ((\<lambda>c. (round5 (snd c), round5 (fst c))) ` set cs))] \<and>
         (\<forall>i<length cs.
            (\<forall>j<i. round5 (snd (cs ! j)) \<noteq> round5 (snd (cs ! i)) \<or>
                    round5 (fst (cs ! j)) \<noteq> round5 (fst (cs ! i))) \<longrightarrow>
            all_stops st ! (ids ! i - 1) =
              \<lparr>stop_id = ids ! i, stop_name = ''Stop '' @ str_nat (ids ! i),
               stop_lat = snd (cs ! i), stop_lon = fst (cs ! i)\<rparr>) \<and>
         (\<forall>c i. stop_id_map st (round5 (snd c), round5 (fst c)) = Some i \<longrightarrow>
            intern c st = (i, st)) \<and>
         (\<forall>c. stop_id_map st (round5 (snd c), round5 (fst c)) = None \<longrightarrow>
            fst (intern c st) = stop_counter st \<and>
            stop_counter (snd (intern c st)) = stop_counter st + 1) \<and>
         (\<forall>x. \<exists>k::int. round5 x = of_int k / 100000 \<and> \<bar>of_int k - x * 100000\<bar> \<le> 1 / 2 \<and>
            (\<bar>of_int k - x * 100000\<bar> = 1 / 2 \<longrightarrow> even k))"
proof -
  have k: "stop_key c = (round5 (snd c), round5 (fst c))" for c
    by (simp add: stop_key_def)
  have keq: "(stop_key a = stop_key b) =
      (round5 (snd a) = round5 (snd b) \<and> round5 (fst a) = round5 (fst b))" for a b
    by (simp add: k)
  note R = intern_loop_registry[OF assms]
  have len: "length ids = length cs" using R by blast
  have eq: "\<forall>i<length cs. \<forall>j<length cs.
            (ids ! i = ids ! j) =
              (round5 (snd (cs ! i)) = round5 (snd (cs ! j)) \<and>
               round5 (fst (cs ! i)) = round5 (fst (cs ! j)))"
    using R unfolding keq by blast
  have cnt: "stop_counter st = Suc (card ((\<lambda>c. (round5 (snd c), round5 (fst c))) ` set cs))"
    using R unfolding stop_key_fun by blast
  have ids: "map stop_id (all_stops st) =
           [1..<Suc (card ((\<lambda>c. (round5 (snd c), round5 (fst c))) ` set cs))]"
    using R unfolding stop_key_fun by blast
  have first: "\<forall>i<length cs.
            (\<forall>j<i. round5 (snd (cs ! j)) \<noteq> round5 (snd (cs ! i)) \<or>
                    round5 (fst (cs ! j)) \<noteq> round5 (fst (cs ! i))) \<longrightarrow>
            all_stops st ! (ids ! i - 1) =
              \<lparr>stop_id = ids ! i, stop_name = ''Stop '' @ str_nat (ids ! i),
               stop_lat = snd (cs ! i), stop_lon = fst (cs ! i)\<rparr>"
  proof (intro allI impI)
    fix i assume i: "i < length cs"
      and d: "\<forall>j<i. round5 (snd (cs ! j)) \<noteq> round5 (snd (cs ! i)) \<or>
                    round5 (fst (cs ! j)) \<noteq> round5 (fst (cs ! i))"
    have "\<forall>j<i. stop_key (cs ! j) \<noteq> stop_key (cs ! i)"
      using d unfolding keq by blast
    with R i show "all_stops st ! (ids ! i - 1) =
              \<lparr>stop_id = ids ! i, stop_name = ''Stop '' @ str_nat (ids ! i),
               stop_lat = snd (cs ! i), stop_lon = fst (cs ! i)\<rparr>"
      by blast
  qed
  have old: "\<forall>c i. stop_id_map st (round5 (snd c), round5 (fst c)) = Some i \<longrightarrow>
            intern c st = (i, st)"
    using intern_old[of st] unfolding k by blast
  have new: "\<forall>c. stop_id_map st (round5 (snd c), round5 (fst c)) = None \<longrightarrow>
            fst (intern c st) = stop_counter st \<and>
            stop_counter (snd (intern c st)) = stop_counter st + 1"
  proof (intro allI impI)
    fix c assume "stop_id_map st (round5 (snd c), round5 (fst c)) = None"
    then have "stop_id_map st (stop_key c) = None" by (simp add: k)
    then show "fst (intern c st) = stop_counter st \<and>
            stop_counter (snd (intern c st)) = stop_counter st + 1"
      by (simp add: intern_new)
  qed
  from len eq cnt ids first old new round5_nearest show ?thesis by blast
qed

text \<open>
  Six coordinates: the first two differ below the fifth decimal and share a stop; the
  third has the rounded longitude of the first but another latitude and gets a stop of
  its own; the longitudes 0.000006, 0.000005 and 0.000015 round to 0.00001, to 0 (a tie,
  to the even multiple) and to 0.00002 (a tie again).
\<close>

theorem stop_interning_witness:
  "fst (intern_loop
      [(4 / 1000000, 45 + 4 / 1000000), (3 / 1000000, 45 + 2 / 1000000), (4 / 1000000, 0),
       (6 / 1000000, 45), (5 / 1000000, 45), (15 / 1000000, 45)] [] [] init_state) =
     [1, 1, 2, 3, 1, 4] \<and>
   all_stops (snd (snd (intern_loop
      [(4 / 1000000, 45 + 4 / 1000000), (3 / 1000000, 45 + 2 / 1000000), (4 / 1000000, 0),
       (6 / 1000000, 45), (5 / 1000000, 45), (15 / 1000000, 45)] [] [] init_state))) =
     [\<lparr>stop_id = 1, stop_name = ''Stop 1'', stop_lat = 45 + 4 / 1000000, stop_lon = 4 / 1000000\<rparr>,
      \<lparr>stop_id = 2, stop_name = ''Stop 2'', stop_lat = 0, stop_lon = 4 / 1000000\<rparr>,
      \<lparr>stop_id = 3, stop_name = ''Stop 3'', stop_lat = 45, stop_lon = 6 / 1000000\<rparr>,
      \<lparr>stop_id = 4, stop_name = ''Stop 4'', stop_lat = 45, stop_lon = 15 / 1000000\<rparr>] \<and>
   card ((\<lambda>c. (round5 (snd c), round5 (fst c))) `
      set [(4 / 1000000, 45 + 4 / 1000000), (3 / 1000000, 45 + 2 / 1000000), (4 / 1000000, 0),
           (6 / 1000000, 45), (5 / 1000000, 45 :: real), (15 / 1000000, 45)]) = 4 \<and>
   round5 (45 + 4 / 1000000) = 45 \<and> round5 (5 / 1000000) = 0 \<and>
   round5 (6 / 1000000) = 1 / 100000 \<and> round5 (15 / 1000000) = 2 / 100000"
proof -
  let ?cs = "[(4 / 1000000, 45 + 4 / 1000000), (3 / 1000000, 45 + 2 / 1000000), (4 / 1000000, 0),
       (6 / 1000000, 45), (5 / 1000000, 45), (15 / 1000000, 45)] :: point list"
  let ?R = "intern_loop ?cs [] [] init_state"
  have ids: "fst ?R = [1, 1, 2, 3, 1, 4]"
    by (simp add: intern_eval)
  have stops: "all_stops (snd (snd ?R)) =
     [\<lparr>stop_id = 1, stop_name = ''Stop 1'', stop_lat = 45 + 4 / 1000000, stop_lon = 4 / 1000000\<rparr>,
      \<lparr>stop_id = 2, stop_name = ''Stop 2'', stop_lat = 0, stop_lon = 4 / 1000000\<rparr>,
      \<lparr>stop_id = 3, stop_name = ''Stop 3'', stop_lat = 45, stop_lon = 6 / 1000000\<rparr>,
      \<lparr>stop_id = 4, stop_name = ''Stop 4'', stop_lat = 45, stop_lon = 15 / 1000000\<rparr>]"
    by (simp add: intern_eval)
  have cnt: "stop_counter (snd (snd ?R)) = 5"
    by (simp add: intern_eval)
  have "?R = (fst ?R, fst (snd ?R), snd (snd ?R))" by simp
  from stop_interning[OF this]
  have "stop_counter (snd (snd ?R)) =
      Suc (card ((\<lambda>c. (round5 (snd c), round5 (fst c))) ` set ?cs))"
    by blast
  with cnt have card: "card ((\<lambda>c. (round5 (snd c), round5 (fst c))) ` set ?cs) = 4"
    by simp
  have r: "round5 (45 + 4 / 1000000) = 45" "round5 (5 / 1000000) = 0"
      "round5 (6 / 1000000) = 1 / 100000" "round5 (15 / 1000000) = 2 / 100000"
    by (simp_all add: round5_def Let_def)
  from ids stops card r show ?thesis by blast
qed

section \<open>Properties of the per-file block\<close>

lemma intern_loop_fields:
  "intern_loop cs rs rc st = (ids, rc', st') \<Longrightarrow>
   rc' = rc @ cs \<and> routes_data st' = routes_data st \<and> all_shapes st' = all_shapes st \<and>
   all_stop_times st' = all_stop_times st"
proof (induction cs arbitrary: rs rc st)
  case Nil
  then show ?case by simp
next
  case (Cons c cs)
  obtain sid st1 where i: "intern c st = (sid, st1)" by (cases "intern c st") auto
  then have "st1 = snd (intern c st)" by simp
  then have f: "routes_data st1 = routes_data st" "all_shapes st1 = all_shapes st"
      "all_stop_times st1 = all_stop_times st"
    using intern_other_fields[of c st] by simp_all
  from Cons.prems i have "intern_loop cs (rs @ [sid]) (rc @ [c]) st1 = (ids, rc', st')" by simp
  from Cons.IH[OF this] f show ?case by simp
qed

lemma calculate_travel_times_zero_speed:
  "2 \<le> length cs \<Longrightarrow> calculate_travel_times G cs 0 = Inl ZeroDivisionError"
  by (cases cs; cases "tl cs") (auto simp: calculate_travel_times_def)

text \<open>
  The three ways through the block: the resampling raises and the state is untouched;
  the travel times raise after the stops were interned; or the block completes.
\<close>

lemma route_body_cases:
  obtains (resample_fails) e where "generate_stops_and_times G points stop_dist = Inl e"
      "route_body G v stop_dist idx name points st = (Some e, st)"
  | (times_fail) cs ids st1 e where "generate_stops_and_times G points stop_dist = Inr cs"
      "intern_loop cs [] [] st = (ids, cs, st1)"
      "calculate_travel_times G cs v = Inl e"
      "route_body G v stop_dist idx name points st = (Some e, st1)"
  | (completes) cs ids st1 ts where "generate_stops_and_times G points stop_dist = Inr cs"
      "intern_loop cs [] [] st = (ids, cs, st1)"
      "calculate_travel_times G cs v = Inr ts"
      "route_body G v stop_dist idx name points st =
         (None, st1\<lparr>all_stop_times := all_stop_times st1 @ stop_time_rows idx ids ts,
                    all_shapes := all_shapes st1 @ shape_rows idx points,
                    routes_data := routes_data st1 @
                      [\<lparr>route_id = idx, route_name = splitext_root name,
                        route_shape_id = idx, stops = ids\<rparr>]\<rparr>)"
proof (cases "generate_stops_and_times G points stop_dist")
  case (Inl e)
  then show ?thesis using resample_fails by (simp add: route_body_def)
next
  case (Inr cs)
  obtain ids rc st1 where l: "intern_loop cs [] [] st = (ids, rc, st1)"
    by (cases "intern_loop cs [] [] st") auto
  then have rc: "rc = cs" using intern_loop_fields[OF l] by simp
  show ?thesis
  proof (cases "calculate_travel_times G cs v")
    case (Inl e)
    then show ?thesis using times_fail[of cs ids st1 e] Inr l rc
      by (simp add: route_body_def)
  next
    case (Inr ts)
    then show ?thesis using completes[of cs ids st1 ts] \<open>generate_stops_and_times G points stop_dist = Inr cs\<close> l rc
      by (simp add: route_body_def)
  qed
qed

text \<open>
  The part of claim C4 that holds: a file whose block raises adds nothing to the routes,
  the shapes and the stop times.
\<close>

lemma route_body_failure_keeps_lists:
  assumes "route_body G v stop_dist idx name points st = (Some e, st')"
  shows "routes_data st' = routes_data st \<and> all_shapes st' = all_shapes st \<and>
         all_stop_times st' = all_stop_times st"
proof (cases rule: route_body_cases[of G points stop_dist v idx name st])
  case (resample_fails e)
  then show ?thesis using assms by simp
next
  case (times_fail cs ids st1 e)
  then show ?thesis using assms intern_loop_fields[OF times_fail(2)] by simp
next
  case (completes cs ids st1 ts)
  then show ?thesis using assms by simp
qed

lemma route_body_inv:
  assumes "registry_inv st"
  shows "registry_inv (snd (route_body G v stop_dist idx name points st))"
proof (cases rule: route_body_cases[of G points stop_dist v idx name st])
  case (resample_fails e)
  then show ?thesis using assms by simp
next
  case (times_fail cs ids st1 e)
  then show ?thesis
    using intern_loop_interned[OF assms times_fail(2)] by (simp add: interned_def)
next
  case (completes cs ids st1 ts)
  have "registry_inv st1"
    using intern_loop_interned[OF assms completes(2)] by (simp add: interned_def)
  then show ?thesis by (simp add: completes(4) registry_inv_def)
qed

lemma intern_loop_ids_prefix:
  "intern_loop cs rs rc st = (ids, rc', st') \<Longrightarrow> \<exists>more. ids = rs @ more"
proof (induction cs arbitrary: rs rc st)
  case Nil
  then show ?case by simp
next
  case (Cons c cs)
  obtain sid st1 where i: "intern c st = (sid, st1)" by (cases "intern c st") auto
  with Cons.prems have "intern_loop cs (rs @ [sid]) (rc @ [c]) st1 = (ids, rc', st')" by simp
  from Cons.IH[OF this] show ?case by auto
qed

lemma registry_inv_nonempty:
  assumes "registry_inv st" and "stop_id_map st k = Some i"
  shows "all_stops st \<noteq> []"
proof -
  have "1 \<le> i \<and> i < stop_counter st" using assms unfolding registry_inv_def by blast
  then have "0 < length (all_stops st)" using registry_inv_length[OF assms(1)] by arith
  then show ?thesis by simp
qed

text \<open>
  Claim C4 fails for the stop registry and the stops list. The block interns the stops
  of the route before it computes the travel times, and the travel times raise
  \<^verbatim>\<open>ZeroDivisionError\<close> on a speed of 0. The exception is caught and the route skipped,
  but the stops it interned stay: after a first file of at least two points (and a
  non-zero spacing), processed with speed 0, the stops list is not empty any more, the
  counter has moved and the first point of the failed route is registered as Stop 1.
\<close>

theorem failed_route_keeps_interned_stops:
  assumes "2 \<le> length points" and "stop_dist \<noteq> 0"
  shows "\<exists>st'. route_body G 0 stop_dist idx name points init_state = (Some ZeroDivisionError, st') \<and>
           all_stops st' \<noteq> all_stops init_state \<and>
           stop_counter st' \<noteq> stop_counter init_state \<and>
           stop_id_map st' (stop_key (hd points)) = Some 1 \<and>
           hd (all_stops st') =
             \<lparr>stop_id = 1, stop_name = ''Stop 1'',
              stop_lat = snd (hd points), stop_lon = fst (hd points)\<rparr>"
proof -
  from generate_stops_count[OF assms, of G]
  obtain cs where cs: "generate_stops_and_times G points stop_dist = Inr cs"
      "2 \<le> length cs" "hd cs = hd points"
    by auto
  then obtain c rest where c: "cs = c # rest" by (cases cs) auto
  have z: "calculate_travel_times G cs 0 = Inl ZeroDivisionError"
    using cs(2) by (rule calculate_travel_times_zero_speed)
  show ?thesis
  proof (cases rule: route_body_cases[of G points stop_dist 0 idx name init_state])
    case (resample_fails e)
    then show ?thesis using cs(1) by simp
  next
    case (completes cs' ids st1 ts)
    then show ?thesis using cs(1) z by simp
  next
    case (times_fail cs' ids st1 e)
    then have eq: "cs' = cs" "e = ZeroDivisionError" using cs(1) z by simp_all
    have I: "interned init_state cs ids st1"
      using intern_loop_interned[OF registry_inv_init times_fail(2)] eq by simp
    then have len: "length ids = length cs" and inv: "registry_inv st1"
      and look: "stop_id_map st1 (stop_key (cs ! 0)) = Some (ids ! 0)"
      and first: "all_stops st1 ! (ids ! 0 - 1) =
          \<lparr>stop_id = ids ! 0, stop_name = ''Stop '' @ str_nat (ids ! 0),
           stop_lat = snd (cs ! 0), stop_lon = fst (cs ! 0)\<rparr>"
      unfolding interned_def using c by (auto simp: init_state_def)
    have "intern c init_state = (1, snd (intern c init_state))"
      by (simp add: intern_def init_state_def)
    then have "\<exists>more. ids = [1] @ more"
      using times_fail(2) unfolding eq c
      by (auto split: prod.splits dest: intern_loop_ids_prefix)
    then have id0: "ids ! 0 = 1" by auto
    have ne: "all_stops st1 \<noteq> []"
      using inv look by (rule registry_inv_nonempty)
    have cnt: "stop_counter st1 \<noteq> 1"
      using ne registry_inv_length[OF inv] by auto
    have hd0: "cs ! 0 = hd points" using cs(3) c by simp
    have "hd (all_stops st1) = all_stops st1 ! 0" using ne by (simp add: hd_conv_nth)
    also have "\<dots> = \<lparr>stop_id = 1, stop_name = ''Stop 1'',
              stop_lat = snd (hd points), stop_lon = fst (hd points)\<rparr>"
      using first unfolding id0 hd0 by (simp add: str_nat.simps digit_def)
    finally have h: "hd (all_stops st1) = \<lparr>stop_id = 1, stop_name = ''Stop 1'',
              stop_lat = snd (hd points), stop_lon = fst (hd points)\<rparr>" .
    show ?thesis
      using times_fail(4) eq(2) ne cnt look h unfolding id0 hd0
      by (simp add: init_state_def)
  qed
qed

text \<open>The definitions that evaluate a run on concrete files.\<close>

lemmas route_eval =
  route_body_def process_gpx_def process_kml_def generate_stops_and_times_def LineString_def
  line_length_def interpolate_def point_along_def euclid_lon upto.simps
  calculate_travel_times_def taxicab_m_def latlon_def
  intern_def stop_key_def round5_def init_state_def Let_def str_nat.simps digit_def
  stop_time_rows_def shape_rows_def enumerate_eq_zip

theorem failed_route_keeps_interned_stops_witness:
  "route_body taxicab_m 0 1000 1 ''a.gpx'' [(0, 0), (1 / 100, 0)] init_state =
     (Some ZeroDivisionError,
      \<lparr>all_stops = [\<lparr>stop_id = 1, stop_name = ''Stop 1'', stop_lat = 0, stop_lon = 0\<rparr>,
                    \<lparr>stop_id = 2, stop_name = ''Stop 2'', stop_lat = 0, stop_lon = 1 / 100\<rparr>],
       stop_coords = [(0, 0), (0, 1 / 100)],
       stop_id_map = [(0, 0) \<mapsto> 1, (0, 1 / 100) \<mapsto> 2],
       stop_counter = 3, routes_data = [], all_shapes = [], all_stop_times = []\<rparr>)"
proof -
  have "2 \<le> length [(0, 0), (1 / 100, 0) :: point]" and "(1000::real) \<noteq> 0" by simp_all
  from failed_route_keeps_interned_stops[OF this, of taxicab_m 1 "''a.gpx''"]
  obtain st' where r: "route_body taxicab_m 0 1000 1 ''a.gpx'' [(0, 0), (1 / 100, 0)] init_state =
      (Some ZeroDivisionError, st')" by blast
  have "snd (route_body taxicab_m 0 1000 1 ''a.gpx'' [(0, 0), (1 / 100, 0)] init_state) =
      \<lparr>all_stops = [\<lparr>stop_id = 1, stop_name = ''Stop 1'', stop_lat = 0, stop_lon = 0\<rparr>,
                    \<lparr>stop_id = 2, stop_name = ''Stop 2'', stop_lat = 0, stop_lon = 1 / 100\<rparr>],
       stop_coords = [(0, 0), (0, 1 / 100)],
       stop_id_map = [(0, 0) \<mapsto> 1, (0, 1 / 100) \<mapsto> 2],
       stop_counter = 3, routes_data = [], all_shapes = [], all_stop_times = []\<rparr>"
    by (simp add: route_eval numeral_2_eq_2)
  with r show ?thesis by simp
qed

section \<open>Properties of a run\<close>

lemma run_loop_invariant:
  assumes "P st" and "\<And>idx file st. P st \<Longrightarrow> P (snd (body idx file st))"
  shows "P (run_loop body idx files st)"
  using assms(1)
proof (induction files arbitrary: idx st)
  case Nil
  then show ?case by simp
next
  case (Cons f fs)
  then show ?case using assms(2) by simp
qed

lemma run_loop_routes:
  assumes "\<And>idx file st. map h (routes_data (snd (body idx file st))) =
             map h (routes_data st) @ (if ok file then [g idx file] else [])"
  shows "map h (routes_data (run_loop body idx files st)) =
           map h (routes_data st) @
           map (\<lambda>(i, f). g i f) (filter (\<lambda>(i, f). ok f) (enumerate idx files))"
proof (induction files arbitrary: idx st)
  case Nil
  then show ?case by simp
next
  case (Cons f fs)
  show ?case
    by (simp add: Cons.IH assms)
qed

lemma route_ok_iff:
  "route_ok G v stop_dist points \<longleftrightarrow>
     fst (route_body G v stop_dist idx name points st) = None"
  by (cases rule: route_body_cases[of G points stop_dist v idx name st])
     (simp_all add: route_ok_def)

lemma route_body_routes:
  "map (\<lambda>r. (route_id r, route_shape_id r, route_name r))
       (routes_data (snd (route_body G v stop_dist idx name points st))) =
   map (\<lambda>r. (route_id r, route_shape_id r, route_name r)) (routes_data st) @
     (if route_ok G v stop_dist points then [(idx, idx, splitext_root name)] else [])"
proof (cases rule: route_body_cases[of G points stop_dist v idx name st])
  case (resample_fails e)
  then show ?thesis by (simp add: route_ok_def)
next
  case (times_fail cs ids st1 e)
  then show ?thesis using intern_loop_fields[OF times_fail(2)] by (simp add: route_ok_def)
next
  case (completes cs ids st1 ts)
  then show ?thesis using intern_loop_fields[OF completes(2)] by (simp add: route_ok_def)
qed

lemma process_gpx_routes:
  "map (\<lambda>r. (route_id r, route_shape_id r, route_name r))
       (routes_data (snd (process_gpx G v stop_dist idx file st))) =
   map (\<lambda>r. (route_id r, route_shape_id r, route_name r)) (routes_data st) @
     (if gpx_ok G v stop_dist file then [(idx, idx, splitext_root (fst file))] else [])"
  by (cases "snd file") (simp_all add: process_gpx_def gpx_ok_def route_body_routes)

lemma process_kml_routes:
  "map (\<lambda>r. (route_id r, route_shape_id r, route_name r))
       (routes_data (snd (process_kml G v stop_dist idx file st))) =
   map (\<lambda>r. (route_id r, route_shape_id r, route_name r)) (routes_data st) @
     (if kml_ok G v stop_dist file then [(idx, idx, splitext_root (fst file))] else [])"
  by (simp add: process_kml_def kml_ok_def route_body_routes)

lemma route_body_linked:
  assumes "ids_linked st"
  shows "ids_linked (snd (route_body G v stop_dist idx name points st))"
proof (cases rule: route_body_cases[of G points stop_dist v idx name st])
  case (resample_fails e)
  then show ?thesis using assms by simp
next
  case (times_fail cs ids st1 e)
  then show ?thesis using assms intern_loop_fields[OF times_fail(2)]
    by (simp add: ids_linked_def)
next
  case (completes cs ids st1 ts)
  have "trip_id ` set (stop_time_rows idx ids ts) \<subseteq> {idx}"
    by (auto simp: stop_time_rows_def)
  moreover have "shape_id ` set (shape_rows idx points) \<subseteq> {idx}"
    by (auto simp: shape_rows_def)
  ultimately show ?thesis using assms intern_loop_fields[OF completes(2)]
    by (auto simp: ids_linked_def completes(4))
qed

lemma ids_linked_init: "ids_linked init_state"
  by (simp add: ids_linked_def init_state_def)

lemma gpx_final_linked: "ids_linked (gpx_final G v d files)"
  unfolding gpx_final_def
proof (rule run_loop_invariant[where P = ids_linked, OF ids_linked_init])
  fix idx and f :: gpx_file and st
  assume "ids_linked st"
  then show "ids_linked (snd (process_gpx G v d idx f st))"
    by (cases "snd f") (simp_all add: process_gpx_def route_body_linked)
qed

lemma kml_final_linked: "ids_linked (kml_final G v d files)"
  unfolding kml_final_def
proof (rule run_loop_invariant[where P = ids_linked, OF ids_linked_init])
  fix idx and f :: kml_file and st
  assume "ids_linked st"
  then show "ids_linked (snd (process_kml G v d idx f st))"
    by (simp add: process_kml_def route_body_linked)
qed

lemma gpx_final_inv: "registry_inv (gpx_final G v d files)"
  unfolding gpx_final_def
proof (rule run_loop_invariant[where P = registry_inv, OF registry_inv_init])
  fix idx and f :: gpx_file and st
  assume "registry_inv st"
  then show "registry_inv (snd (process_gpx G v d idx f st))"
    by (cases "snd f") (simp_all add: process_gpx_def route_body_inv)
qed

lemma kml_final_inv: "registry_inv (kml_final G v d files)"
  unfolding kml_final_def
proof (rule run_loop_invariant[where P = registry_inv, OF registry_inv_init])
  fix idx and f :: kml_file and st
  assume "registry_inv st"
  then show "registry_inv (snd (process_kml G v d idx f st))"
    by (simp add: process_kml_def route_body_inv)
qed

lemma gpx_final_routes:
  "map (\<lambda>r. (route_id r, route_shape_id r, route_name r)) (routes_data (gpx_final G v d files)) =
   map (\<lambda>(i, f). (i, i, splitext_root (fst f)))
     (filter (\<lambda>(i, f). gpx_ok G v d f) (enumerate 1 files))"
  unfolding gpx_final_def
  using run_loop_routes[where body = "process_gpx G v d" and ok = "gpx_ok G v d"
      and h = "\<lambda>r. (route_id r, route_shape_id r, route_name r)"
      and g = "\<lambda>i f. (i, i, splitext_root (fst f))", OF process_gpx_routes,
      of 1 files init_state]
  by (simp add: init_state_def)

lemma kml_final_routes:
  "map (\<lambda>r. (route_id r, route_shape_id r, route_name r)) (routes_data (kml_final G v d files)) =
   map (\<lambda>(i, f). (i, i, splitext_root (fst f)))
     (filter (\<lambda>(i, f). kml_ok G v d f) (enumerate 1 files))"
  unfolding kml_final_def
  using run_loop_routes[where body = "process_kml G v d" and ok = "kml_ok G v d"
      and h = "\<lambda>r. (route_id r, route_shape_id r, route_name r)"
      and g = "\<lambda>i f. (i, i, splitext_root (fst f))", OF process_kml_routes,
      of 1 files init_state]
  by (simp add: init_state_def)

lemma trips_of_routes:
  assumes "map (\<lambda>r. (route_id r, route_shape_id r, route_name r)) (routes_data st) =
           map (\<lambda>(i, f). (i, i, nm f)) xs"
  shows "trips_txt (write_feed h st) = map (\<lambda>(i, f). (i, 1, i, i)) xs"
proof -
  have "trips_txt (write_feed h st) =
      map ((\<lambda>(a, b, c). (a, 1, a, b)) \<circ> (\<lambda>r. (route_id r, route_shape_id r, route_name r)))
        (routes_data st)"
    by (simp add: write_feed_def comp_def)
  also have "\<dots> = map (\<lambda>(a, b, c). (a, 1, a, b)) (map (\<lambda>(i, f). (i, i, nm f)) xs)"
    unfolding map_map[symmetric] assms ..
  also have "\<dots> = map (\<lambda>(i, f). (i, 1, i, i)) xs"
    by (simp add: comp_def case_prod_beta)
  finally show ?thesis .
qed

text \<open>
  Claim C10. In both multi-route scripts the routes of the final state are, in order, the
  files on which the block completed, each with its 1-based position in the file listing
  as route identity and shape identity and with the name of that file; the rows of
  \<^verbatim>\<open>trips.txt\<close> carry the same number as route, trip and shape identity; and every
  stop-time row and shape row carries the identity of one of these routes. A file that
  fails keeps its position to itself: the identities of the routes after it are not
  shifted, so they need not be contiguous.
\<close>

theorem route_ids_are_file_positions:
  "map (\<lambda>r. (route_id r, route_shape_id r, route_name r))
       (routes_data (gpx_final G v d gpx_files)) =
     map (\<lambda>(i, f). (i, i, splitext_root (fst f)))
       (filter (\<lambda>(i, f). gpx_ok G v d f) (enumerate 1 gpx_files)) \<and>
   trips_txt (write_feed h (gpx_final G v d gpx_files)) =
     map (\<lambda>(i, f). (i, 1, i, i)) (filter (\<lambda>(i, f). gpx_ok G v d f) (enumerate 1 gpx_files)) \<and>
   ids_linked (gpx_final G v d gpx_files) \<and>
   map (\<lambda>r. (route_id r, route_shape_id r, route_name r))
       (routes_data (kml_final G v d kml_files)) =
     map (\<lambda>(i, f). (i, i, splitext_root (fst f)))
       (filter (\<lambda>(i, f). kml_ok G v d f) (enumerate 1 kml_files)) \<and>
   trips_txt (write_feed h (kml_final G v d kml_files)) =
     map (\<lambda>(i, f). (i, 1, i, i)) (filter (\<lambda>(i, f). kml_ok G v d f) (enumerate 1 kml_files)) \<and>
   ids_linked (kml_final G v d kml_files)"
  using gpx_final_routes[of G v d gpx_files] kml_final_routes[of G v d kml_files]
    trips_of_routes[OF gpx_final_routes, of h G v d gpx_files]
    trips_of_routes[OF kml_final_routes, of h G v d kml_files]
    gpx_final_linked[of G v d gpx_files] kml_final_linked[of G v d kml_files]
  by simp

lemma route_ok_taxicab:
  "route_ok taxicab_m 36 1000 [(0, 0), (1 / 100, 0)]"
  "route_ok taxicab_m 36 1000 [(0, 1), (1 / 100, 1)]"
  by (simp_all add: route_ok_def route_eval)

theorem route_ids_are_file_positions_witness:
  "map (\<lambda>r. (route_id r, route_shape_id r, route_name r))
     (routes_data (gpx_final taxicab_m 36 1000
        [(''a.gpx'', Inr [(0, 0), (1 / 100, 0)]), (''b.gpx'', Inl ParseError),
         (''c.gpx'', Inr [(0, 1), (1 / 100, 1)])])) =
   [(1, 1, ''a''), (3, 3, ''c'')]"
  using route_ids_are_file_positions[of taxicab_m 36 1000
      "[(''a.gpx'', Inr [(0, 0), (1 / 100, 0)]), (''b.gpx'', Inl ParseError),
        (''c.gpx'', Inr [(0, 1), (1 / 100, 1)])]" 600 "[]"]
  by (simp add: gpx_ok_def route_ok_taxicab enumerate_eq_zip upt_rec splitext_root_def)

lemma no_routes_empty_lists:
  assumes "map (\<lambda>r. (route_id r, route_shape_id r, route_name r)) (routes_data st) =
             map g (filter ok xs)"
    and "\<forall>x \<in> set xs. \<not> ok x" and "ids_linked st"
  shows "routes_data st = [] \<and> all_stop_times st = [] \<and> all_shapes st = []"
proof -
  have "filter ok xs = []" using assms(2) by (simp add: filter_empty_conv)
  then have r: "routes_data st = []" using assms(1) by simp
  then show ?thesis using assms(3) by (simp add: ids_linked_def)
qed

lemma enumerate_snd: "(i, f) \<in> set (enumerate n xs) \<Longrightarrow> f \<in> set xs"
  by (auto simp: enumerate_eq_zip dest: set_zip_rightD)

text \<open>
  Claim C3. When the block completes on no file, \<^verbatim>\<open>multiple_kml.py\<close> leaves through
  \<^verbatim>\<open>sys.exit(1)\<close> before any table is written, as the claim says. \<^verbatim>\<open>multiple_gpx.py\<close>
  has no such test: on a listing that is not empty it goes on to write the tables and
  the archive, with no route, trip, stop time, shape or frequency in them.
\<close>

theorem zero_routes_outcome:
  assumes "gpx_files \<noteq> []" and "\<forall>f \<in> set gpx_files. \<not> gpx_ok G v d f"
    and "\<forall>f \<in> set kml_files. \<not> kml_ok G v d f"
  shows "(\<exists>feed. run_gpx G v d h gpx_files = Archive feed \<and> routes_txt feed = [] \<and>
            trips_txt feed = [] \<and> stop_times_txt feed = [] \<and> shapes_txt feed = [] \<and>
            frequencies_txt feed = []) \<and>
         run_kml G v d h kml_files = Exit 1"
proof -
  have g: "\<forall>x \<in> set (enumerate 1 gpx_files). \<not> (\<lambda>(i, f). gpx_ok G v d f) x"
    using assms(2) by (auto dest: enumerate_snd)
  have k: "\<forall>x \<in> set (enumerate 1 kml_files). \<not> (\<lambda>(i, f). kml_ok G v d f) x"
    using assms(3) by (auto dest: enumerate_snd)
  have eg: "routes_data (gpx_final G v d gpx_files) = [] \<and>
      all_stop_times (gpx_final G v d gpx_files) = [] \<and>
      all_shapes (gpx_final G v d gpx_files) = []"
    using gpx_final_routes g gpx_final_linked by (rule no_routes_empty_lists)
  have ek: "routes_data (kml_final G v d kml_files) = []"
    using no_routes_empty_lists[OF kml_final_routes k kml_final_linked] by simp
  have "run_kml G v d h kml_files = Exit 1"
    using ek by (simp add: run_kml_def)
  moreover have "run_gpx G v d h gpx_files =
      Archive (write_feed h (gpx_final G v d gpx_files))"
    using assms(1) by (simp add: run_gpx_def)
  ultimately show ?thesis using eg by (simp add: write_feed_def)
qed

theorem zero_routes_outcome_witness:
  "run_gpx taxicab_m 36 1000 600 [(''bad.gpx'', Inl ParseError)] =
     Archive \<lparr>stops_txt = [], routes_txt = [], trips_txt = [], stop_times_txt = [],
              frequencies_txt = [], shapes_txt = [], transfers_txt = {}\<rparr> \<and>
   run_kml taxicab_m 36 1000 600 [(''bad.kml'', [])] = Exit 1"
proof -
  have "[(''bad.gpx'', Inl ParseError)] \<noteq> ([] :: gpx_file list)"
    and "\<forall>f \<in> set [(''bad.gpx'', Inl ParseError)]. \<not> gpx_ok taxicab_m 36 1000 f"
    and "\<forall>f \<in> set [(''bad.kml'', [])]. \<not> kml_ok taxicab_m 36 1000 f"
    by (simp_all add: gpx_ok_def kml_ok_def)
  from zero_routes_outcome[OF this, of 600]
  have "run_kml taxicab_m 36 1000 600 [(''bad.kml'', [])] = Exit 1" by blast
  moreover have "run_gpx taxicab_m 36 1000 600 [(''bad.gpx'', Inl ParseError)] =
     Archive \<lparr>stops_txt = [], routes_txt = [], trips_txt = [], stop_times_txt = [],
              frequencies_txt = [], shapes_txt = [], transfers_txt = {}\<rparr>"
    by (simp add: run_gpx_def gpx_final_def process_gpx_def write_feed_def transfers_def
        init_state_def)
  ultimately show ?thesis by simp
qed

text \<open>
  In every stop-time row of a multi-route run the departure string is the arrival
  string, and both are the time string of a number of seconds.
\<close>

lemma stop_time_rows_departure:
  "r \<in> set (stop_time_rows idx ids ts) \<Longrightarrow>
   departure_time r = arrival_time r \<and> (\<exists>t. arrival_time r = seconds_to_gtfs_time (6 * 3600 + t))"
  by (auto simp: stop_time_rows_def)

lemma route_body_departure:
  assumes "\<forall>r \<in> set (all_stop_times st). departure_time r = arrival_time r"
  shows "\<forall>r \<in> set (all_stop_times (snd (route_body G v stop_dist idx name points st))).
           departure_time r = arrival_time r"
proof (cases rule: route_body_cases[of G points stop_dist v idx name st])
  case (resample_fails e)
  then show ?thesis using assms by simp
next
  case (times_fail cs ids st1 e)
  then show ?thesis using assms intern_loop_fields[OF times_fail(2)] by simp
next
  case (completes cs ids st1 ts)
  then show ?thesis
    using assms intern_loop_fields[OF completes(2)] stop_time_rows_departure[of _ idx ids ts]
    by auto
qed

lemma final_departure:
  "\<forall>r \<in> set (all_stop_times (gpx_final G v d gpx_files)). departure_time r = arrival_time r"
  "\<forall>r \<in> set (all_stop_times (kml_final G v d kml_files)). departure_time r = arrival_time r"
proof -
  let ?P = "\<lambda>st. \<forall>r \<in> set (all_stop_times st). departure_time r = arrival_time r"
  have i: "?P init_state" by (simp add: init_state_def)
  have "?P (snd (process_gpx G v d idx f st))" if "?P st" for idx f st
    using that by (cases "snd f") (simp_all add: process_gpx_def route_body_departure)
  then show "?P (gpx_final G v d gpx_files)"
    unfolding gpx_final_def using i by (intro run_loop_invariant[where P = ?P])
  have "?P (snd (process_kml G v d idx f st))" if "?P st" for idx f st
    using that by (simp add: process_kml_def route_body_departure)
  then show "?P (kml_final G v d kml_files)"
    unfolding kml_final_def using i by (intro run_loop_invariant[where P = ?P])
qed

section \<open>Properties of the transfers\<close>

lemma transfers_member:
  "(a, b) \<in> set (transfers st) \<longleftrightarrow>
     1 < length (stop_coords st) \<and>
     (\<exists>i < length (stop_coords st). \<exists>j < length (stop_coords st).
        euclid (stop_coords st ! j) (stop_coords st ! i) \<le> 3 / 10000 \<and> i \<noteq> j \<and>
        stop_id (all_stops st ! i) \<noteq> stop_id (all_stops st ! j) \<and>
        a = stop_id (all_stops st ! i) \<and> b = stop_id (all_stops st ! j))"
  by (auto simp: transfers_def query_ball_point_def)

lemma transfers_sym: "(a, b) \<in> set (transfers st) \<Longrightarrow> (b, a) \<in> set (transfers st)"
  unfolding transfers_member by (metis euclid_sym)

lemma transfers_irrefl: "(a, b) \<in> set (transfers st) \<Longrightarrow> a \<noteq> b"
  unfolding transfers_member by auto

text \<open>
  Claim C9. The list of transfers is symmetric: with a pair \<open>(a, b)\<close> of stop
  identities it holds the pair \<open>(b, a)\<close>, since every stop is a query point and the
  distance test is symmetric.
\<close>

theorem transfers_symmetric:
  assumes "(a, b) \<in> set (transfers st)"
  shows "(b, a) \<in> set (transfers st)"
proof -
  let ?cs = "stop_coords st"
  from assms obtain i j where n: "1 < length ?cs"
    and ij: "i < length ?cs" "j < length ?cs" "i \<noteq> j"
    and near: "euclid (?cs ! j) (?cs ! i) \<le> 3 / 10000"
    and ids: "stop_id (all_stops st ! i) \<noteq> stop_id (all_stops st ! j)"
      "a = stop_id (all_stops st ! i)" "b = stop_id (all_stops st ! j)"
    unfolding transfers_member by blast
  have "euclid (?cs ! i) (?cs ! j) \<le> 3 / 10000"
    using near by (simp add: euclid_sym)
  with n ij ids show ?thesis
    unfolding transfers_member by (intro conjI exI[of _ j] exI[of _ i]) auto
qed

lemma transfers_txt_member:
  "(a, b, t, m) \<in> transfers_txt (write_feed h st) \<longleftrightarrow>
     (a, b) \<in> set (transfers st) \<and> t = 0 \<and> m = 60"
  by (auto simp: write_feed_def)

text \<open>
  Claim C2, as the code has it. No row of \<^verbatim>\<open>transfers.txt\<close> joins a stop identity to
  itself, and the rows are a set, so no ordered pair is written twice. But
  \<^verbatim>\<open>set(transfers)\<close> holds ordered tuples: a pair of colliding stops is written in
  both directions, so each unordered pair appears exactly twice, not once.
\<close>

theorem transfer_rows:
  assumes "(a, b, t, m) \<in> transfers_txt (write_feed h st)"
  shows "a \<noteq> b \<and> t = 0 \<and> m = 60 \<and> (b, a, 0, 60) \<in> transfers_txt (write_feed h st) \<and>
         card {r \<in> transfers_txt (write_feed h st). r = (a, b, 0, 60) \<or> r = (b, a, 0, 60)} = 2"
proof -
  from assms have ab: "(a, b) \<in> set (transfers st)" and t: "t = 0" "m = 60"
    by (simp_all add: transfers_txt_member)
  have ne: "a \<noteq> b" using ab by (rule transfers_irrefl)
  have ba: "(b, a, 0, 60) \<in> transfers_txt (write_feed h st)"
    using transfers_sym[OF ab] by (simp add: transfers_txt_member)
  have "{r \<in> transfers_txt (write_feed h st). r = (a, b, 0, 60) \<or> r = (b, a, 0, 60)} =
      {(a, b, 0, 60), (b, a, 0, 60)}"
    using assms ba t by auto
  then have "card {r \<in> transfers_txt (write_feed h st). r = (a, b, 0, 60) \<or> r = (b, a, 0, 60)} = 2"
    using ne by simp
  with ne t ba show ?thesis by simp
qed

text \<open>
  A run on one track of two points 0.0002 degrees apart: two stops, within the radius of
  0.0003 degrees of each other.
\<close>

lemma euclid_lat: "euclid (c, a) (c, b) = \<bar>a - b\<bar>"
  by (simp add: euclid_def)

lemma two_stop_run:
  "gpx_final taxicab_m 36 1000 [(''a.gpx'', Inr [(0, 0), (2 / 10000, 0)])] =
     \<lparr>all_stops = [\<lparr>stop_id = 1, stop_name = ''Stop 1'', stop_lat = 0, stop_lon = 0\<rparr>,
                   \<lparr>stop_id = 2, stop_name = ''Stop 2'', stop_lat = 0, stop_lon = 2 / 10000\<rparr>],
      stop_coords = [(0, 0), (0, 2 / 10000)],
      stop_id_map = [(0, 0) \<mapsto> 1, (0, 2 / 10000) \<mapsto> 2],
      stop_counter = 3,
      routes_data = [\<lparr>route_id = 1, route_name = ''a'', route_shape_id = 1, stops = [1, 2]\<rparr>],
      all_shapes = [\<lparr>shape_id = 1, shape_pt_lat = 0, shape_pt_lon = 0, shape_pt_sequence = 1\<rparr>,
                    \<lparr>shape_id = 1, shape_pt_lat = 0, shape_pt_lon = 2 / 10000,
                      shape_pt_sequence = 2\<rparr>],
      all_stop_times =
        [\<lparr>trip_id = 1, arrival_time = ''06:00:00'', departure_time = ''06:00:00'',
           st_stop_id = 1, stop_sequence = 1\<rparr>,
         \<lparr>trip_id = 1, arrival_time = ''06:00:02'', departure_time = ''06:00:02'',
           st_stop_id = 2, stop_sequence = 2\<rparr>]\<rparr>"
  by (simp add: gpx_final_def route_eval time_string_eval splitext_root_def numeral_2_eq_2 upt_rec)

lemma two_stop_transfers:
  "set (transfers (gpx_final taxicab_m 36 1000 [(''a.gpx'', Inr [(0, 0), (2 / 10000, 0)])])) =
     {(1, 2), (2, 1)}"
  unfolding two_stop_run
  by (auto simp: transfers_def query_ball_point_def euclid_lat upt_rec nth_Cons')

theorem transfers_symmetric_witness:
  "(1, 2) \<in> set (transfers (gpx_final taxicab_m 36 1000
       [(''a.gpx'', Inr [(0, 0), (2 / 10000, 0)])])) \<and>
   (2, 1) \<in> set (transfers (gpx_final taxicab_m 36 1000
       [(''a.gpx'', Inr [(0, 0), (2 / 10000, 0)])]))"
proof -
  have "(1, 2) \<in> set (transfers (gpx_final taxicab_m 36 1000
       [(''a.gpx'', Inr [(0, 0), (2 / 10000, 0)])]))"
    unfolding two_stop_transfers by simp
  with transfers_symmetric[OF this] show ?thesis by simp
qed

theorem transfer_rows_witness:
  "card {r \<in> transfers_txt (write_feed 600 (gpx_final taxicab_m 36 1000
           [(''a.gpx'', Inr [(0, 0), (2 / 10000, 0)])])).
         r = (1, 2, 0, 60) \<or> r = (2, 1, 0, 60)} = 2"
proof -
  have "(1, 2, 0, 60) \<in> transfers_txt (write_feed 600 (gpx_final taxicab_m 36 1000
           [(''a.gpx'', Inr [(0, 0), (2 / 10000, 0)])]))"
    unfolding transfers_txt_member two_stop_transfers by simp
  from transfer_rows[OF this] show ?thesis by simp
qed

text \<open>
  The claim as stated fails on that run: the unordered pair of stops 1 and 2 is written
  twice, as the row from 1 to 2 and as the row from 2 to 1.
\<close>

theorem unordered_pair_twice_counterexample:
  "(1, 2, 0, 60) \<in> transfers_txt (write_feed 600 (gpx_final taxicab_m 36 1000
       [(''a.gpx'', Inr [(0, 0), (2 / 10000, 0)])])) \<and>
   (2, 1, 0, 60) \<in> transfers_txt (write_feed 600 (gpx_final taxicab_m 36 1000
       [(''a.gpx'', Inr [(0, 0), (2 / 10000, 0)])]))"
  unfolding transfers_txt_member two_stop_transfers by simp

end
